theory Spec2Isabelle
  imports Complex_Main
begin

section \<open>Python values\<close>

text \<open>
  The client of \<^verbatim>\<open>rest/client.py\<close> handles two kinds of Python data: the scalar
  arguments of an endpoint, collected in a parameter dict, and whatever
  \<^verbatim>\<open>response.json()\<close> decodes from the reply. A \<^verbatim>\<open>dict\<close> keeps insertion order, so
  it is an association list; its keys are pairwise different by construction and a
  lookup is \<open>map_of\<close>. A Python \<^verbatim>\<open>float\<close> is modelled by the rational it denotes
  (exact arithmetic; rounding, infinities and NaN are outside the model).
\<close>

datatype scalar = SNone | SBool bool | SInt int | SFloat rat | SStr string

datatype pyval =
    PNone
  | PBool bool
  | PInt int
  | PFloat rat
  | PStr string
  | PList "pyval list"
  | PDict "(string \<times> pyval) list"

text \<open>
  Every exception the modelled code can raise is a value. \<open>Exception v\<close> is the
  \<^verbatim>\<open>raise Exception(data["error"])\<close> of \<^verbatim>\<open>_process_response\<close>; \<open>HTTPError s\<close> is what
  \<^verbatim>\<open>raise_for_status\<close> raises for status \<open>s\<close>; \<open>ValueError\<close> stands for the decoding
  errors (\<^verbatim>\<open>response.json()\<close>, \<^verbatim>\<open>parse_datetime\<close>); \<open>ConnectionError\<close> is a failure
  of \<^verbatim>\<open>Session.send\<close> itself.
\<close>

datatype error =
    AssertionError string
  | AttributeError
  | KeyError string
  | TypeError
  | ValueError
  | HTTPError nat
  | ConnectionError
  | Exception pyval

type_synonym 'a result = "error + 'a"

text \<open>\<^verbatim>\<open>v[k]\<close> for a string key: only a dict can be subscripted by a string.\<close>

definition subscript :: "pyval \<Rightarrow> string \<Rightarrow> pyval result" where
  "subscript v k =
     (case v of
        PDict kvs \<Rightarrow> (case map_of kvs k of None \<Rightarrow> Inl (KeyError k) | Some x \<Rightarrow> Inr x)
      | _ \<Rightarrow> Inl TypeError)"

text \<open>Python truthiness, as \<^verbatim>\<open>not v\<close> and \<^verbatim>\<open>if v:\<close> read it.\<close>

fun truthy :: "pyval \<Rightarrow> bool" where
  "truthy PNone = False"
| "truthy (PBool b) = b"
| "truthy (PInt i) = (i \<noteq> 0)"
| "truthy (PFloat r) = (r \<noteq> 0)"
| "truthy (PStr s) = (s \<noteq> [])"
| "truthy (PList xs) = (xs \<noteq> [])"
| "truthy (PDict kvs) = (kvs \<noteq> [])"

text \<open>
  Iterating a decoded value (\<^verbatim>\<open>for r in v\<close>, \<^verbatim>\<open>filter(f, v)\<close>): a list yields its
  elements, a dict its keys, a string its characters; anything else is not iterable.
\<close>

definition py_iter :: "pyval \<Rightarrow> pyval list result" where
  "py_iter v =
     (case v of
        PList xs \<Rightarrow> Inr xs
      | PDict kvs \<Rightarrow> Inr (map (\<lambda>kv. PStr (fst kv)) kvs)
      | PStr s \<Rightarrow> Inr (map (\<lambda>c. PStr [c]) s)
      | _ \<Rightarrow> Inl TypeError)"

section \<open>The response envelope\<close>

text \<open>
  A \<^verbatim>\<open>requests.Response\<close> as the client reads it: the status code, and the value
  \<^verbatim>\<open>response.json()\<close> returns, \<open>None\<close> when the body is not JSON and the call raises
  \<^verbatim>\<open>ValueError\<close>.
\<close>

record response =
  status_code :: nat
  json_body :: "pyval option"

text \<open>\<^verbatim>\<open>Response.raise_for_status\<close>: an \<^verbatim>\<open>HTTPError\<close> for a 4xx or 5xx status.\<close>

definition raise_for_status :: "response \<Rightarrow> unit result" where
  "raise_for_status r =
     (if 400 \<le> status_code r \<and> status_code r < 600 then Inl (HTTPError (status_code r))
      else Inr ())"

text \<open>
  \<^verbatim>\<open>FtxClient._process_response\<close> (lines 65-74). When decoding fails the handler
  calls \<^verbatim>\<open>raise_for_status\<close> and, if that returns, re-raises the decoding error.
\<close>

definition process_response :: "response \<Rightarrow> pyval result" where
  "process_response r =
     (case json_body r of
        None \<Rightarrow> (case raise_for_status r of Inl e \<Rightarrow> Inl e | Inr _ \<Rightarrow> Inl ValueError)
      | Some data \<Rightarrow>
          (case subscript data ''success'' of
             Inl e \<Rightarrow> Inl e
           | Inr ok \<Rightarrow>
               if \<not> truthy ok then
                 (case subscript data ''error'' of Inl e \<Rightarrow> Inl e | Inr msg \<Rightarrow> Inl (Exception msg))
               else subscript data ''result''))"

section \<open>Strings\<close>

text \<open>
  A \<^verbatim>\<open>str\<close> is the list of its UTF-8 bytes, so \<^verbatim>\<open>s.encode()\<close> is the identity.
  \<open>str_int\<close> is \<^verbatim>\<open>str(i)\<close> (and \<^verbatim>\<open>f"{i}"\<close>) for an \<^verbatim>\<open>int\<close>: its decimal digits.
\<close>

definition digit_char :: "nat \<Rightarrow> char" where
  "digit_char n = ''0123456789'' ! n"

fun str_nat :: "nat \<Rightarrow> string" where
  "str_nat n = (if n < 10 then [digit_char n] else str_nat (n div 10) @ [digit_char (n mod 10)])"

declare str_nat.simps [simp del]

definition str_int :: "int \<Rightarrow> string" where
  "str_int i = (if i < 0 then CHR ''-'' # str_nat (nat (- i)) else str_nat (nat i))"

text \<open>\<^verbatim>\<open>sep.join(xs)\<close>.\<close>

fun join :: "string \<Rightarrow> string list \<Rightarrow> string" where
  "join sep [] = []"
| "join sep [x] = x"
| "join sep (x # y # ys) = x @ sep @ join sep (y # ys)"

text \<open>\<^verbatim>\<open>s.upper()\<close> on the ASCII letters.\<close>

definition upper_char :: "char \<Rightarrow> char" where
  "upper_char c =
     (case map_of (zip ''abcdefghijklmnopqrstuvwxyz'' ''ABCDEFGHIJKLMNOPQRSTUVWXYZ'') c of
        None \<Rightarrow> c
      | Some u \<Rightarrow> u)"

definition upper :: "string \<Rightarrow> string" where
  "upper s = map upper_char s"

text \<open>
  \<^verbatim>\<open>d[k] = v\<close> on a dict: an existing key keeps its position, a new key goes last.
\<close>

fun dict_set :: "'k \<Rightarrow> 'v \<Rightarrow> ('k \<times> 'v) list \<Rightarrow> ('k \<times> 'v) list" where
  "dict_set k v [] = [(k, v)]"
| "dict_set k v (p # ps) = (if fst p = k then (k, v) # ps else p # dict_set k v ps)"

section \<open>Requests and the network\<close>

text \<open>
  \<^verbatim>\<open>requests.Request\<close> as the client builds it (line 43): the constructor turns
  \<^verbatim>\<open>params=None\<close> into an empty dict and leaves \<^verbatim>\<open>json=None\<close> alone. The field
  \<open>http_method\<close> is the attribute \<^verbatim>\<open>method\<close>. A header value is optional because
  \<^verbatim>\<open>api_key\<close> may be \<^verbatim>\<open>None\<close>.
\<close>

type_synonym param_dict = "(string \<times> scalar) list"

record request =
  http_method :: string
  url :: string
  params :: param_dict
  json :: "param_dict option"
  headers :: "(string \<times> string option) list"

text \<open>
  What the client reads of \<^verbatim>\<open>request.prepare()\<close>: \<^verbatim>\<open>method\<close>, \<^verbatim>\<open>path_url\<close> and
  \<^verbatim>\<open>body\<close>, and the headers that go out with it.
\<close>

record prepared_request =
  p_method :: string
  path_url :: string
  body :: "string option"
  p_headers :: "(string \<times> string option) list"

record reply =
  latency :: rat
  outcome :: "response result"

text \<open>
  The environment of the client: the library functions whose code is not part of the
  repository, and the exchange. Each is a parameter of the model.
  \<^item> \<open>float_repr\<close>: \<^verbatim>\<open>repr\<close> of a float, which \<^verbatim>\<open>str\<close> and \<^verbatim>\<open>json.dumps\<close> both use;
  \<^item> \<open>json_str\<close>: the JSON string literal of a \<^verbatim>\<open>str\<close>, quotes and escapes included;
  \<^item> \<open>quote_plus\<close>, \<open>quote\<close>: the functions of \<^verbatim>\<open>urllib.parse\<close>;
  \<^item> \<open>url_path\<close>, \<open>url_query\<close>: the path and the query component of a URL, as
    \<^verbatim>\<open>PreparedRequest\<close> splits it (no scheme, no host);
  \<^item> \<open>hmac_sha256_hex\<close>: \<^verbatim>\<open>hmac.new(key, msg, "sha256").hexdigest()\<close>;
  \<^item> \<open>parse_datetime\<close>: \<^verbatim>\<open>ciso8601.parse_datetime\<close>, the instant in microseconds since
    the epoch, \<open>None\<close> where it raises \<^verbatim>\<open>ValueError\<close>;
  \<^item> \<open>server\<close>: the reply to the \<open>n\<close>-th request sent (counting from 0) and the time
    the exchange takes for it.
\<close>

record env =
  float_repr :: "rat \<Rightarrow> string"
  json_str :: "string \<Rightarrow> string"
  quote_plus :: "string \<Rightarrow> string"
  quote :: "string \<Rightarrow> string"
  url_path :: "string \<Rightarrow> string"
  url_query :: "string \<Rightarrow> string"
  hmac_sha256_hex :: "string \<Rightarrow> string \<Rightarrow> string"
  parse_datetime :: "string \<Rightarrow> int option"
  server :: "nat \<Rightarrow> prepared_request \<Rightarrow> reply"

text \<open>\<^verbatim>\<open>str(v)\<close> for a scalar, as \<^verbatim>\<open>urlencode\<close> applies it.\<close>

definition py_str :: "env \<Rightarrow> scalar \<Rightarrow> string" where
  "py_str env v =
     (case v of
        SNone \<Rightarrow> ''None''
      | SBool b \<Rightarrow> (if b then ''True'' else ''False'')
      | SInt i \<Rightarrow> str_int i
      | SFloat r \<Rightarrow> float_repr env r
      | SStr s \<Rightarrow> s)"

text \<open>
  \<^verbatim>\<open>RequestEncodingMixin._encode_params\<close> of the HTTP library on a dict of scalars: the
  entries whose value is \<^verbatim>\<open>None\<close> are left out, the others go through \<^verbatim>\<open>urlencode\<close>.
\<close>

definition encode_params :: "env \<Rightarrow> param_dict \<Rightarrow> string" where
  "encode_params env ps =
     join ''&''
       (map (\<lambda>kv. quote_plus env (fst kv) @ ''='' @ quote_plus env (py_str env (snd kv)))
          (filter (\<lambda>kv. snd kv \<noteq> SNone) ps))"

text \<open>
  \<^verbatim>\<open>json.dumps\<close> on a dict of scalars, with the default separators: every entry is
  written, \<^verbatim>\<open>None\<close> as \<^verbatim>\<open>null\<close>.
\<close>

definition json_scalar :: "env \<Rightarrow> scalar \<Rightarrow> string" where
  "json_scalar env v =
     (case v of
        SNone \<Rightarrow> ''null''
      | SBool b \<Rightarrow> (if b then ''true'' else ''false'')
      | SInt i \<Rightarrow> str_int i
      | SFloat r \<Rightarrow> float_repr env r
      | SStr s \<Rightarrow> json_str env s)"

definition json_dumps :: "env \<Rightarrow> param_dict \<Rightarrow> string" where
  "json_dumps env d =
     ''{'' @ join '', '' (map (\<lambda>kv. json_str env (fst kv) @ '': '' @ json_scalar env (snd kv)) d)
       @ ''}''"

text \<open>
  \<^verbatim>\<open>Request.prepare\<close>: the method in upper case; \<^verbatim>\<open>path_url\<close>, the path of the URL and,
  after a question mark, its query joined with the encoded \<^verbatim>\<open>params\<close>; the body, present
  exactly when \<^verbatim>\<open>json\<close> is not \<^verbatim>\<open>None\<close>.
\<close>

definition prepare :: "env \<Rightarrow> request \<Rightarrow> prepared_request" where
  "prepare env req =
     (let enc_params = encode_params env (params req);
          query0 = url_query env (url req);
          query = (if enc_params = [] then query0
                   else if query0 = [] then enc_params
                   else query0 @ ''&'' @ enc_params)
      in \<lparr>p_method = upper (http_method req),
          path_url = url_path env (url req) @ (if query = [] then [] else ''?'' @ query),
          body = map_option (json_dumps env) (json req),
          p_headers = headers req\<rparr>)"

section \<open>Signing\<close>

text \<open>The client object: \<^verbatim>\<open>FtxClient.__init__\<close> (lines 27-31).\<close>

record ftx_client =
  api_key :: "string option"
  api_secret :: "string option"
  subaccount_name :: "string option"

definition ENDPOINT :: string where
  "ENDPOINT = ''https://ftx.com/api/''"

text \<open>\<^verbatim>\<open>int(time.time() * 1000)\<close> for the clock reading \<open>t\<close>, in seconds: \<^verbatim>\<open>int\<close> truncates.\<close>

definition ms_timestamp :: "rat \<Rightarrow> int" where
  "ms_timestamp t = (if 0 \<le> t then \<lfloor>t * 1000\<rfloor> else \<lceil>t * 1000\<rceil>)"

text \<open>The bytes that are signed (lines 50-53).\<close>

definition signature_payload :: "env \<Rightarrow> int \<Rightarrow> request \<Rightarrow> string" where
  "signature_payload env ts request =
     (let prepared = prepare env request;
          payload = str_int ts @ p_method prepared @ path_url prepared
      in case body prepared of
           None \<Rightarrow> payload
         | Some b \<Rightarrow> if b \<noteq> [] then payload @ b else payload)"

text \<open>
  \<^verbatim>\<open>FtxClient._sign_request\<close> (lines 48-63), at the clock reading \<open>t\<close>. Without a secret,
  \<^verbatim>\<open>self._api_secret.encode()\<close> raises before any header is set.
\<close>

definition sign_request :: "env \<Rightarrow> ftx_client \<Rightarrow> rat \<Rightarrow> request \<Rightarrow> request result" where
  "sign_request env self t request =
     (let ts = ms_timestamp t;
          payload = signature_payload env ts request
      in case api_secret self of
           None \<Rightarrow> Inl AttributeError
         | Some secret \<Rightarrow>
             (let signature = hmac_sha256_hex env secret payload;
                  h1 = dict_set ''FTX-KEY'' (api_key self) (headers request);
                  h2 = dict_set ''FTX-SIGN'' (Some signature) h1;
                  h3 = dict_set ''FTX-TS'' (Some (str_int ts)) h2;
                  h4 = (case subaccount_name self of
                          None \<Rightarrow> h3
                        | Some name \<Rightarrow>
                            if name \<noteq> [] then dict_set ''FTX-SUBACCOUNT'' (Some (quote env name)) h3
                            else h3)
              in Inr (request\<lparr>headers := h4\<rparr>)))"

section \<open>The world: clock, network and sleep\<close>

text \<open>
  The effects of the client are explicit. A world holds the clock reading \<open>now\<close>, in
  seconds, which \<^verbatim>\<open>time.time\<close> and \<^verbatim>\<open>time.perf_counter\<close> both read (only differences
  of the latter are used), and the trace of what the client has done so far, oldest
  first: each request handed to \<^verbatim>\<open>Session.send\<close>, with the time it was sent and the
  reply that came back, and each \<^verbatim>\<open>time.sleep\<close> with the time it began and its
  duration. Time passes only while a request is with the exchange and while the client
  sleeps.
\<close>

datatype event = Sent rat prepared_request reply | Slept rat rat

record world =
  now :: rat
  trace :: "event list"

fun is_sent :: "event \<Rightarrow> bool" where
  "is_sent (Sent t p r) = True"
| "is_sent (Slept t d) = False"

definition sent_events :: "world \<Rightarrow> event list" where
  "sent_events w = filter is_sent (trace w)"

definition slept_events :: "world \<Rightarrow> event list" where
  "slept_events w = filter (\<lambda>e. \<not> is_sent e) (trace w)"

text \<open>The requests of a trace, the times they were sent at, and the replies.\<close>

fun requests_of :: "event list \<Rightarrow> prepared_request list" where
  "requests_of [] = []"
| "requests_of (Sent t p r # es) = p # requests_of es"
| "requests_of (Slept t d # es) = requests_of es"

fun replies_of :: "event list \<Rightarrow> reply list" where
  "replies_of [] = []"
| "replies_of (Sent t p r # es) = r # replies_of es"
| "replies_of (Slept t d # es) = replies_of es"

fun send_times :: "event list \<Rightarrow> rat list" where
  "send_times [] = []"
| "send_times (Sent t p r # es) = t # send_times es"
| "send_times (Slept t d # es) = send_times es"

text \<open>\<^verbatim>\<open>self._session.send(prepared)\<close>: the exchange answers, or the transport raises.\<close>

definition send :: "env \<Rightarrow> prepared_request \<Rightarrow> world \<Rightarrow> response result \<times> world" where
  "send env p w =
     (let r = server env (length (sent_events w)) p
      in (outcome r, \<lparr>now = now w + latency r, trace = trace w @ [Sent (now w) p r]\<rparr>))"

text \<open>\<^verbatim>\<open>time.sleep(d)\<close>.\<close>

definition sleep :: "rat \<Rightarrow> world \<Rightarrow> world" where
  "sleep d w = \<lparr>now = now w + d, trace = trace w @ [Slept (now w) d]\<rparr>"

section \<open>Transport\<close>

text \<open>
  \<^verbatim>\<open>FtxClient._request\<close> (lines 42-46) with its keyword arguments \<^verbatim>\<open>params\<close> and
  \<^verbatim>\<open>json\<close>, and the three methods that call it (lines 33-40). The names are those of
  the source without the leading underscore, which an Isabelle name cannot have.
  \<open>new_request\<close> is the \<^verbatim>\<open>Request(method, self._ENDPOINT + path, **kwargs)\<close> of line 43.
\<close>

definition new_request :: "string \<Rightarrow> string \<Rightarrow> param_dict option \<Rightarrow> param_dict option \<Rightarrow> request" where
  "new_request meth path ps js =
     \<lparr>http_method = meth, url = ENDPOINT @ path,
      params = (case ps of None \<Rightarrow> [] | Some d \<Rightarrow> d), json = js, headers = []\<rparr>"

definition priv_request ::
  "env \<Rightarrow> ftx_client \<Rightarrow> string \<Rightarrow> string \<Rightarrow> param_dict option \<Rightarrow> param_dict option
     \<Rightarrow> world \<Rightarrow> pyval result \<times> world" where
  "priv_request env self meth path ps js w =
     (let request = new_request meth path ps js
      in case sign_request env self (now w) request of
           Inl e \<Rightarrow> (Inl e, w)
         | Inr signed \<Rightarrow>
             (case send env (prepare env signed) w of
                (Inl e, w1) \<Rightarrow> (Inl e, w1)
              | (Inr response, w1) \<Rightarrow> (process_response response, w1)))"

definition priv_get ::
  "env \<Rightarrow> ftx_client \<Rightarrow> string \<Rightarrow> param_dict option \<Rightarrow> world \<Rightarrow> pyval result \<times> world" where
  "priv_get env self path ps = priv_request env self ''GET'' path ps None"

definition priv_post ::
  "env \<Rightarrow> ftx_client \<Rightarrow> string \<Rightarrow> param_dict option \<Rightarrow> world \<Rightarrow> pyval result \<times> world" where
  "priv_post env self path ps = priv_request env self ''POST'' path None ps"

definition priv_delete ::
  "env \<Rightarrow> ftx_client \<Rightarrow> string \<Rightarrow> param_dict option \<Rightarrow> world \<Rightarrow> pyval result \<times> world" where
  "priv_delete env self path ps = priv_request env self ''DELETE'' path None ps"

section \<open>The throttle\<close>

text \<open>
  \<^verbatim>\<open>slow_down\<close> (lines 11-21). \<open>wrapper_finish t0\<close> is the part of \<^verbatim>\<open>wrapper_slow_down\<close>
  after the wrapped call: an exception of the call leaves the wrapper at once; a value
  is returned after the elapsed time is measured and, if it is under 0.05 s, the rest
  is slept.
\<close>

definition wrapper_finish :: "rat \<Rightarrow> 'a result \<times> world \<Rightarrow> 'a result \<times> world" where
  "wrapper_finish t0 rw =
     (case rw of
        (Inl e, w1) \<Rightarrow> (Inl e, w1)
      | (Inr v, w1) \<Rightarrow>
          (let elapsed = now w1 - t0
           in if elapsed < 5 / 100 then (Inr v, sleep (5 / 100 - elapsed) w1) else (Inr v, w1)))"

definition slow_down :: "(world \<Rightarrow> 'a result \<times> world) \<Rightarrow> world \<Rightarrow> 'a result \<times> world" where
  "slow_down func w = (let t0 = now w in wrapper_finish t0 (func w))"

section \<open>Endpoints\<close>

text \<open>\<^verbatim>\<open>f"{x}"\<close> for an optional string.\<close>

definition fmt_opt :: "string option \<Rightarrow> string" where
  "fmt_opt x = (case x of None \<Rightarrow> ''None'' | Some s \<Rightarrow> s)"

text \<open>\<^verbatim>\<open>**({k: v} if v is not None else {})\<close>.\<close>

definition opt_entry :: "string \<Rightarrow> ('a \<Rightarrow> scalar) \<Rightarrow> 'a option \<Rightarrow> param_dict" where
  "opt_entry k mk x = (case x of None \<Rightarrow> [] | Some v \<Rightarrow> [(k, mk v)])"

text \<open>An optional argument as a dict value.\<close>

definition opt_scalar :: "('a \<Rightarrow> scalar) \<Rightarrow> 'a option \<Rightarrow> scalar" where
  "opt_scalar mk x = (case x of None \<Rightarrow> SNone | Some v \<Rightarrow> mk v)"

text \<open>
  \<^verbatim>\<open>FtxClient.modify_order\<close> (lines 175-202). The two \<^verbatim>\<open>assert\<close> statements run before
  anything else (the interpreter is taken to run with assertions on). The argument
  \<^verbatim>\<open>size\<close> is written \<open>size'\<close>.
\<close>

definition modify_order ::
  "env \<Rightarrow> ftx_client \<Rightarrow> string option \<Rightarrow> string option \<Rightarrow> rat option \<Rightarrow> rat option
     \<Rightarrow> string option \<Rightarrow> world \<Rightarrow> pyval result \<times> world" where
  "modify_order env self existing_order_id existing_client_order_id price size' client_order_id =
     slow_down (\<lambda>w.
       if \<not> ((existing_order_id = None) \<noteq> (existing_client_order_id = None))
       then (Inl (AssertionError ''Must supply exactly one ID for the order to modify''), w)
       else if \<not> (price = None \<or> size' = None)
       then (Inl (AssertionError ''Must modify price or size of order''), w)
       else
         (let path = (if existing_order_id \<noteq> None
                      then ''orders/'' @ fmt_opt existing_order_id @ ''/modify''
                      else ''orders/by_client_id/'' @ fmt_opt existing_client_order_id @ ''/modify'')
          in priv_post env self path
               (Some (opt_entry ''size'' SFloat size' @ opt_entry ''price'' SFloat price
                        @ opt_entry ''clientId'' SStr client_order_id)) w))"

text \<open>
  \<^verbatim>\<open>FtxClient.place_order\<close> (lines 238-264); \<^verbatim>\<open>size\<close> and \<^verbatim>\<open>type\<close> are written
  \<open>size'\<close> and \<open>type'\<close>. A market order passes \<^verbatim>\<open>price=None\<close>.
\<close>

definition place_order ::
  "env \<Rightarrow> ftx_client \<Rightarrow> string \<Rightarrow> string \<Rightarrow> rat option \<Rightarrow> rat \<Rightarrow> string \<Rightarrow> bool \<Rightarrow> bool \<Rightarrow> bool
     \<Rightarrow> string option \<Rightarrow> world \<Rightarrow> pyval result \<times> world" where
  "place_order env self market side price size' type' reduce_only ioc post_only client_id =
     slow_down
       (priv_post env self ''orders''
          (Some [(''market'', SStr market), (''side'', SStr side),
                 (''price'', opt_scalar SFloat price), (''size'', SFloat size'),
                 (''type'', SStr type'), (''reduceOnly'', SBool reduce_only),
                 (''ioc'', SBool ioc), (''postOnly'', SBool post_only),
                 (''clientId'', opt_scalar SStr client_id)]))"

text \<open>\<^verbatim>\<open>FtxClient.cancel_order\<close> (lines 321-323): a \<^verbatim>\<open>DELETE\<close> with no parameters.\<close>

definition cancel_order :: "env \<Rightarrow> ftx_client \<Rightarrow> string \<Rightarrow> world \<Rightarrow> pyval result \<times> world" where
  "cancel_order env self order_id = slow_down (priv_delete env self (''orders/'' @ order_id) None)"

text \<open>\<^verbatim>\<open>FtxClient.get_positions\<close> (lines 357-359).\<close>

definition get_positions :: "env \<Rightarrow> ftx_client \<Rightarrow> bool \<Rightarrow> world \<Rightarrow> pyval result \<times> world" where
  "get_positions env self show_avg_price =
     slow_down (priv_get env self ''positions'' (Some [(''showAvgPrice'', SBool show_avg_price)]))"

text \<open>
  \<^verbatim>\<open>next(filter(lambda x: x["future"] == name, xs), None)\<close>: the entries are tested in
  order until one matches; an entry that cannot be subscripted raises when it is
  reached. Only a \<^verbatim>\<open>str\<close> equals the \<^verbatim>\<open>str\<close> \<open>name\<close>.
\<close>

fun next_filter_future :: "string \<Rightarrow> pyval list \<Rightarrow> pyval result" where
  "next_filter_future name [] = Inr PNone"
| "next_filter_future name (x # xs) =
     (case subscript x ''future'' of
        Inl e \<Rightarrow> Inl e
      | Inr f \<Rightarrow> if f = PStr name then Inr x else next_filter_future name xs)"

text \<open>\<^verbatim>\<open>FtxClient.get_position\<close> (lines 361-366).\<close>

definition get_position ::
  "env \<Rightarrow> ftx_client \<Rightarrow> string \<Rightarrow> bool \<Rightarrow> world \<Rightarrow> pyval result \<times> world" where
  "get_position env self name show_avg_price =
     slow_down (\<lambda>w.
       case get_positions env self show_avg_price w of
         (Inl e, w1) \<Rightarrow> (Inl e, w1)
       | (Inr positions, w1) \<Rightarrow>
           (case py_iter positions of
              Inl e \<Rightarrow> (Inl e, w1)
            | Inr xs \<Rightarrow> (next_filter_future name xs, w1)))"

section \<open>The stripped form of a parameter dict\<close>


section \<open>Trade history\<close>

text \<open>
  Membership in the Python set \<^verbatim>\<open>ids\<close> goes by hash and equality: the numbers
  \<^verbatim>\<open>1\<close>, \<^verbatim>\<open>1.0\<close> and \<^verbatim>\<open>True\<close> are one element, a string is another, and a list or a
  dict cannot be hashed. \<open>hash_key\<close> maps a value to what the set tells apart.
\<close>

datatype pykey = KNone | KNum rat | KStr string

definition hash_key :: "pyval \<Rightarrow> pykey result" where
  "hash_key v =
     (case v of
        PNone \<Rightarrow> Inr KNone
      | PBool b \<Rightarrow> Inr (KNum (if b then 1 else 0))
      | PInt i \<Rightarrow> Inr (KNum (of_int i))
      | PFloat r \<Rightarrow> Inr (KNum r)
      | PStr s \<Rightarrow> Inr (KStr s)
      | PList xs \<Rightarrow> Inl TypeError
      | PDict kvs \<Rightarrow> Inl TypeError)"

text \<open>The element of \<^verbatim>\<open>ids\<close> that \<^verbatim>\<open>r["id"]\<close> stands for.\<close>

definition trade_key :: "pyval \<Rightarrow> pykey result" where
  "trade_key r = (case subscript r ''id'' of Inl e \<Rightarrow> Inl e | Inr i \<Rightarrow> hash_key i)"

text \<open>
  \<^verbatim>\<open>[r for r in response if r["id"] not in ids]\<close> (line 383): \<^verbatim>\<open>ids\<close> is the set as it
  stands before the page; it is not touched while the page is filtered.
\<close>

fun dedupe :: "pykey set \<Rightarrow> pyval list \<Rightarrow> pyval list result" where
  "dedupe ids [] = Inr []"
| "dedupe ids (r # rs) =
     (case trade_key r of
        Inl e \<Rightarrow> Inl e
      | Inr k \<Rightarrow>
          (case dedupe ids rs of
             Inl e \<Rightarrow> Inl e
           | Inr ys \<Rightarrow> Inr (if k \<notin> ids then r # ys else ys)))"

text \<open>\<^verbatim>\<open>{r["id"] for r in deduped_trades}\<close> (line 385).\<close>

definition id_keys :: "pyval list \<Rightarrow> pykey set" where
  "id_keys rs = set (concat (map (\<lambda>r. case trade_key r of Inl e \<Rightarrow> [] | Inr k \<Rightarrow> [k]) rs))"

text \<open>
  \<^verbatim>\<open>parse_datetime(t["time"])\<close>, and \<^verbatim>\<open>min\<close> over the generator of line 389: the first
  item is the running minimum, each later item replaces it when it is smaller. A
  \<^verbatim>\<open>datetime\<close> is its instant, in microseconds since the epoch, and \<^verbatim>\<open>.timestamp()\<close>
  turns it into seconds.
\<close>

definition trade_time :: "env \<Rightarrow> pyval \<Rightarrow> int result" where
  "trade_time env t =
     (case subscript t ''time'' of
        Inl e \<Rightarrow> Inl e
      | Inr (PStr s) \<Rightarrow> (case parse_datetime env s of None \<Rightarrow> Inl ValueError | Some d \<Rightarrow> Inr d)
      | Inr _ \<Rightarrow> Inl TypeError)"

fun min_from :: "env \<Rightarrow> int \<Rightarrow> pyval list \<Rightarrow> int result" where
  "min_from env m [] = Inr m"
| "min_from env m (t # ts) =
     (case trade_time env t of
        Inl e \<Rightarrow> Inl e
      | Inr d \<Rightarrow> min_from env (if d < m then d else m) ts)"

definition min_time :: "env \<Rightarrow> pyval list \<Rightarrow> int result" where
  "min_time env page =
     (case page of
        [] \<Rightarrow> Inl ValueError
      | t # ts \<Rightarrow> (case trade_time env t of Inl e \<Rightarrow> Inl e | Inr d \<Rightarrow> min_from env d ts))"

definition timestamp :: "int \<Rightarrow> rat" where
  "timestamp d = of_int d / 1000000"

definition limit :: nat where
  "limit = 100"

text \<open>The path and the parameters of one page request (lines 376-382).\<close>

definition trades_path :: "string \<Rightarrow> string" where
  "trades_path market = ''markets/'' @ market @ ''/trades''"

definition trades_params :: "rat option \<Rightarrow> rat option \<Rightarrow> param_dict" where
  "trades_params end_time start_time =
     [(''end_time'', opt_scalar SFloat end_time), (''start_time'', opt_scalar SFloat start_time)]"

text \<open>
  The body of the \<^verbatim>\<open>while True\<close> loop after the page has arrived (lines 383-391),
  from the state \<open>(ids, results)\<close>: it raises, or leaves the loop with the results
  (\<^verbatim>\<open>break\<close>), or goes round again with the new state and the new \<^verbatim>\<open>end_time\<close>. The
  \<^verbatim>\<open>print\<close> of line 386 writes to standard output only and is left out.
\<close>

datatype step = Break "pyval list" | Continue "pykey set" "pyval list" rat

definition loop_body :: "env \<Rightarrow> pykey set \<Rightarrow> pyval list \<Rightarrow> pyval \<Rightarrow> step result" where
  "loop_body env ids results response =
     (case py_iter response of
        Inl e \<Rightarrow> Inl e
      | Inr page \<Rightarrow>
          (case dedupe ids page of
             Inl e \<Rightarrow> Inl e
           | Inr deduped_trades \<Rightarrow>
               (let results' = results @ deduped_trades;
                    ids' = ids \<union> id_keys deduped_trades
                in if length page = 0 then Inr (Break results')
                   else
                     (case min_time env page of
                        Inl e \<Rightarrow> Inl e
                      | Inr d \<Rightarrow>
                          if length page < limit then Inr (Break results')
                          else Inr (Continue ids' results' (timestamp d))))))"

text \<open>
  The loop of \<^verbatim>\<open>get_all_trades\<close> (lines 375-391), from the state
  \<open>(ids, results, end_time)\<close>. The loop has no bound of its own: the fuel counts the
  iterations allowed, and \<open>None\<close> says they did not suffice.
\<close>

fun trades_loop ::
  "nat \<Rightarrow> env \<Rightarrow> ftx_client \<Rightarrow> string \<Rightarrow> rat option \<Rightarrow> pykey set \<Rightarrow> pyval list \<Rightarrow> rat option
     \<Rightarrow> world \<Rightarrow> (pyval list result \<times> world) option" where
  "trades_loop 0 env self market start_time ids results end_time w = None"
| "trades_loop (Suc fuel) env self market start_time ids results end_time w =
     (case priv_get env self (trades_path market) (Some (trades_params end_time start_time)) w of
        (Inl e, w1) \<Rightarrow> Some (Inl e, w1)
      | (Inr response, w1) \<Rightarrow>
          (case loop_body env ids results response of
             Inl e \<Rightarrow> Some (Inl e, w1)
           | Inr (Break results') \<Rightarrow> Some (Inr results', w1)
           | Inr (Continue ids' results' end_time') \<Rightarrow>
               trades_loop fuel env self market start_time ids' results' (Some end_time') w1))"

text \<open>
  \<^verbatim>\<open>FtxClient.get_all_trades\<close> (lines 368-392): the decorator wraps the whole method,
  the loop calls \<^verbatim>\<open>self._get\<close> directly.
\<close>

definition get_all_trades ::
  "nat \<Rightarrow> env \<Rightarrow> ftx_client \<Rightarrow> string \<Rightarrow> rat option \<Rightarrow> rat option \<Rightarrow> world
     \<Rightarrow> (pyval list result \<times> world) option" where
  "get_all_trades fuel env self market start_time end_time w =
     (let t0 = now w
      in map_option (wrapper_finish t0)
           (trades_loop fuel env self market start_time {} [] end_time w))"


section \<open>Reading a trace of page requests\<close>

text \<open>
  The page a reply brings: what \<^verbatim>\<open>_get\<close> returns for it, iterated. A record counts as
  seen when its identifier is in the set.
\<close>

definition page_of :: "reply \<Rightarrow> pyval list option" where
  "page_of rep =
     (case outcome rep of
        Inl e \<Rightarrow> None
      | Inr response \<Rightarrow>
          (case process_response response of
             Inl e \<Rightarrow> None
           | Inr v \<Rightarrow> (case py_iter v of Inl e \<Rightarrow> None | Inr page \<Rightarrow> Some page)))"

definition seen :: "pykey set \<Rightarrow> pyval \<Rightarrow> bool" where
  "seen ids r = (case trade_key r of Inl e \<Rightarrow> False | Inr k \<Rightarrow> k \<in> ids)"

text \<open>\<open>d\<close> is the least parsed time among all the records of the page.\<close>

definition least_time :: "env \<Rightarrow> pyval list \<Rightarrow> int \<Rightarrow> bool" where
  "least_time env page d =
     (list_ex (\<lambda>t. trade_time env t = Inr d) page
      \<and> list_all (\<lambda>t. case trade_time env t of Inl e \<Rightarrow> False | Inr x \<Rightarrow> d \<le> x) page)"

text \<open>The \<^verbatim>\<open>path_url\<close> of the page request with the given \<^verbatim>\<open>end_time\<close> and \<^verbatim>\<open>start_time\<close>.\<close>

definition trades_path_url :: "env \<Rightarrow> string \<Rightarrow> rat option \<Rightarrow> rat option \<Rightarrow> string" where
  "trades_path_url env market end_time start_time =
     path_url (prepare env (new_request ''GET'' (trades_path market)
                 (Some (trades_params end_time start_time)) None))"

text \<open>The page an event of the trace fetched, if it is a request that got one.\<close>

fun fetched :: "event \<Rightarrow> pyval list option" where
  "fetched (Sent t p rep) = page_of rep"
| "fetched (Slept t d) = None"

text \<open>
  \<open>back_to_back t es\<close>: the events are requests only, the first sent at \<open>t\<close> and each
  later one at the moment the reply to the one before came in. \<open>end_time_of t es\<close> is
  the clock reading after the events.
\<close>

fun back_to_back :: "rat \<Rightarrow> event list \<Rightarrow> bool" where
  "back_to_back t [] = True"
| "back_to_back t (Sent t' p rep # es) = (t' = t \<and> back_to_back (t + latency rep) es)"
| "back_to_back t (Slept t' d # es) = False"

fun end_time_of :: "rat \<Rightarrow> event list \<Rightarrow> rat" where
  "end_time_of t [] = t"
| "end_time_of t (Sent t' p rep # es) = end_time_of (t' + latency rep) es"
| "end_time_of t (Slept t' d # es) = end_time_of (t' + d) es"

section \<open>An environment for the examples\<close>

text \<open>
  The theorems below hold for every environment. The closed examples need one to
  compute with: \<open>example_env\<close> agrees with CPython and the HTTP library on the inputs the
  examples use, namely strings of ASCII letters, digits, \<^verbatim>\<open>_\<close>, \<^verbatim>\<open>-\<close>, \<^verbatim>\<open>.\<close> and \<^verbatim>\<open>/\<close>
  (which need no quoting and no escape), URLs below \<^verbatim>\<open>https://ftx.com\<close> without a
  query, floats with at most six decimals, and the three instants of
  \<open>example_instants\<close>. Its digest is a stand-in that only records what was signed with
  which key, and its exchange is down; an example sets \<open>server\<close> to the replies it needs.
\<close>

definition strip_zeros :: "string \<Rightarrow> string" where
  "strip_zeros s =
     (case dropWhile (\<lambda>c. c = CHR ''0'') (rev s) of [] \<Rightarrow> ''0'' | x # xs \<Rightarrow> rev (x # xs))"

definition example_float_repr :: "rat \<Rightarrow> string" where
  "example_float_repr r =
     (let a = \<bar>r\<bar>;
          whole = nat \<lfloor>a\<rfloor>;
          micros = nat \<lfloor>(a - of_int \<lfloor>a\<rfloor>) * 1000000\<rfloor>;
          digits = str_nat micros
      in (if r < 0 then ''-'' else []) @ str_nat whole @ ''.''
           @ strip_zeros (replicate (6 - length digits) (CHR ''0'') @ digits))"

definition example_instants :: "(string \<times> int) list" where
  "example_instants =
     [(''1970-01-01T00:00:10+00:00'', 10000000),
      (''1970-01-01T00:00:20+00:00'', 20000000),
      (''1970-01-01T00:00:30+00:00'', 30000000)]"

definition example_env :: env where
  "example_env =
     \<lparr>float_repr = example_float_repr,
      json_str = (\<lambda>s. ''\"'' @ s @ ''\"''),
      quote_plus = (\<lambda>s. s),
      quote = (\<lambda>s. s),
      url_path = (\<lambda>u. drop (length ''https://ftx.com'') u),
      url_query = (\<lambda>u. []),
      hmac_sha256_hex = (\<lambda>key msg. ''hmac-sha256('' @ key @ '','' @ msg @ '')''),
      parse_datetime = map_of example_instants,
      server = (\<lambda>n p. \<lparr>latency = 0, outcome = Inl ConnectionError\<rparr>)\<rparr>"

definition example_client :: ftx_client where
  "example_client = \<lparr>api_key = Some ''key'', api_secret = Some ''secret'', subaccount_name = None\<rparr>"

text \<open>The envelope of a successful reply, and an exchange that answers at once.\<close>

definition ok_response :: "pyval \<Rightarrow> response" where
  "ok_response v =
     \<lparr>status_code = 200, json_body = Some (PDict [(''success'', PBool True), (''result'', v)])\<rparr>"

definition error_response :: "nat \<Rightarrow> string \<Rightarrow> response" where
  "error_response s msg =
     \<lparr>status_code = s, json_body = Some (PDict [(''success'', PBool False), (''error'', PStr msg)])\<rparr>"

definition trade :: "int \<Rightarrow> string \<Rightarrow> pyval" where
  "trade i t = PDict [(''id'', PInt i), (''time'', PStr t)]"

text \<open>
  Three exchanges: one that answers an empty list after 10 ms, one that answers it
  after 80 ms, and one that refuses every request after 10 ms.
\<close>

definition quick_env :: env where
  "quick_env = example_env\<lparr>server := (\<lambda>n p. \<lparr>latency = 1 / 100, outcome = Inr (ok_response (PList []))\<rparr>)\<rparr>"

definition slow_env :: env where
  "slow_env = example_env\<lparr>server := (\<lambda>n p. \<lparr>latency = 8 / 100, outcome = Inr (ok_response (PList []))\<rparr>)\<rparr>"

definition refusing_env :: env where
  "refusing_env =
     example_env\<lparr>server := (\<lambda>n p. \<lparr>latency = 1 / 100,
                                    outcome = Inr (error_response 401 ''Not logged in'')\<rparr>)\<rparr>"

text \<open>An exchange that lists three positions, two of them in the same future.\<close>

definition position :: "string \<Rightarrow> int \<Rightarrow> pyval" where
  "position name n = PDict [(''future'', PStr name), (''size'', PInt n)]"

definition positions_env :: env where
  "positions_env =
     example_env\<lparr>server := (\<lambda>n p. \<lparr>latency = 0,
        outcome = Inr (ok_response (PList [position ''ETH-PERP'' 1, position ''BTC-PERP'' 2,
                                            position ''BTC-PERP'' 3]))\<rparr>)\<rparr>"

text \<open>
  An exchange with 101 trades in the market. Asked without a cursor it answers the
  100 latest, all made at second 20; asked with one it answers the trade with
  identifier 99 again and an older one. Every reply takes 10 ms.
\<close>

definition full_page :: "pyval list" where
  "full_page = map (\<lambda>i. trade (int i) ''1970-01-01T00:00:20+00:00'') [0..<100]"

definition older_page :: "pyval list" where
  "older_page = [trade 99 ''1970-01-01T00:00:20+00:00'', trade 100 ''1970-01-01T00:00:10+00:00'']"

definition paged_env :: env where
  "paged_env =
     example_env\<lparr>server := (\<lambda>n p. \<lparr>latency = 1 / 100,
        outcome = Inr (ok_response (PList (if path_url p = ''/api/markets/BTC-PERP/trades''
                                           then full_page else older_page)))\<rparr>)\<rparr>"

text \<open>An exchange whose only page lists the trade with identifier 7 twice.\<close>

definition twice_env :: env where
  "twice_env =
     example_env\<lparr>server := (\<lambda>n p. \<lparr>latency = 1 / 100,
        outcome = Inr (ok_response (PList [trade 7 ''1970-01-01T00:00:10+00:00'',
                                            trade 7 ''1970-01-01T00:00:10+00:00'']))\<rparr>)\<rparr>"

section \<open>Computing with the model\<close>

lemma str_nat_digit: "n < 10 \<Longrightarrow> str_nat n = [digit_char n]"
  by (simp add: str_nat.simps)

lemma str_nat_step: "10 \<le> n \<Longrightarrow> str_nat n = str_nat (n div 10) @ [digit_char (n mod 10)]"
  by (subst str_nat.simps) simp

lemmas str_eval = str_int_def str_nat_digit str_nat_step digit_char_def

lemma floor_rat_numeral: "\<lfloor>(numeral a :: rat) / numeral b\<rfloor> = numeral a div numeral b"
proof -
  have "\<lfloor>(of_int (numeral a) :: rat) / of_int (numeral b)\<rfloor> = numeral a div numeral b"
    by (rule floor_divide_of_int_eq)
  then show ?thesis by simp
qed

lemma map_of_dict_set: "map_of (dict_set k v d) k' = (if k' = k then Some v else map_of d k')"
  by (induction d) auto

lemma str_nat_nonempty: "str_nat n \<noteq> []"
  by (subst str_nat.simps) simp

lemma str_int_nonempty: "str_int i \<noteq> []"
  by (simp add: str_int_def str_nat_nonempty)

lemma requests_of_append: "requests_of (es @ fs) = requests_of es @ requests_of fs"
  by (induction es rule: requests_of.induct) auto

lemma send_times_append: "send_times (es @ fs) = send_times es @ send_times fs"
  by (induction es rule: send_times.induct) auto

lemma upper_GET: "upper ''GET'' = ''GET''"
  by (simp add: upper_def upper_char_def)

lemma upper_POST: "upper ''POST'' = ''POST''"
  by (simp add: upper_def upper_char_def)

lemma upper_DELETE: "upper ''DELETE'' = ''DELETE''"
  by (simp add: upper_def upper_char_def)

lemma prepare_headers:
  "prepare env (r\<lparr>headers := h\<rparr>) = (prepare env r)\<lparr>p_headers := h\<rparr>"
  by (simp add: prepare_def Let_def)

lemma signature_payload_concat:
  "signature_payload env ts request =
     str_int ts @ p_method (prepare env request) @ path_url (prepare env request)
       @ (case body (prepare env request) of None \<Rightarrow> [] | Some b \<Rightarrow> b)"
  by (simp add: signature_payload_def Let_def split: option.split)

text \<open>What \<^verbatim>\<open>_sign_request\<close> does for a client that has a secret.\<close>

lemma sign_request_secret:
  assumes "api_secret self = Some secret"
  shows "\<exists>h. sign_request env self t r = Inr (r\<lparr>headers := h\<rparr>)
             \<and> map_of h ''FTX-SIGN''
                 = Some (Some (hmac_sha256_hex env secret
                                 (signature_payload env (ms_timestamp t) r)))
             \<and> map_of h ''FTX-TS'' = Some (Some (str_int (ms_timestamp t)))"
proof (cases "subaccount_name self")
  case None
  with assms show ?thesis
    by (intro exI [of _ "dict_set ''FTX-TS'' (Some (str_int (ms_timestamp t)))
           (dict_set ''FTX-SIGN'' (Some (hmac_sha256_hex env secret
               (signature_payload env (ms_timestamp t) r)))
             (dict_set ''FTX-KEY'' (api_key self) (headers r)))"])
       (simp add: sign_request_def Let_def map_of_dict_set)
next
  case (Some name)
  let ?h3 = "dict_set ''FTX-TS'' (Some (str_int (ms_timestamp t)))
           (dict_set ''FTX-SIGN'' (Some (hmac_sha256_hex env secret
               (signature_payload env (ms_timestamp t) r)))
             (dict_set ''FTX-KEY'' (api_key self) (headers r)))"
  from assms Some show ?thesis
    by (intro exI [of _ "if name \<noteq> [] then dict_set ''FTX-SUBACCOUNT'' (Some (quote env name)) ?h3
                         else ?h3"])
       (simp add: sign_request_def Let_def map_of_dict_set)
qed

lemma sign_request_no_secret:
  "api_secret self = None \<Longrightarrow> sign_request env self t r = Inl AttributeError"
  by (simp add: sign_request_def Let_def)

text \<open>One call of \<^verbatim>\<open>_request\<close> by a client with a secret: exactly one request goes out.\<close>

lemma priv_request_sent:
  assumes "api_secret self = Some secret"
  shows "\<exists>h p rep.
           p = (prepare env (new_request meth path ps js))\<lparr>p_headers := h\<rparr>
         \<and> rep = server env (length (sent_events w)) p
         \<and> priv_request env self meth path ps js w =
               (case outcome rep of Inl e \<Rightarrow> Inl e | Inr response \<Rightarrow> process_response response,
                \<lparr>now = now w + latency rep, trace = trace w @ [Sent (now w) p rep]\<rparr>)
         \<and> map_of h ''FTX-SIGN''
               = Some (Some (hmac_sha256_hex env secret
                   (signature_payload env (ms_timestamp (now w)) (new_request meth path ps js))))"
proof -
  from sign_request_secret [OF assms, of env "now w" "new_request meth path ps js"]
  obtain h where
    s: "sign_request env self (now w) (new_request meth path ps js)
          = Inr ((new_request meth path ps js)\<lparr>headers := h\<rparr>)" and
    g: "map_of h ''FTX-SIGN'' = Some (Some (hmac_sha256_hex env secret
          (signature_payload env (ms_timestamp (now w)) (new_request meth path ps js))))"
    by blast
  let ?p = "(prepare env (new_request meth path ps js))\<lparr>p_headers := h\<rparr>"
  let ?rep = "server env (length (sent_events w)) ?p"
  have "priv_request env self meth path ps js w =
               (case outcome ?rep of Inl e \<Rightarrow> Inl e | Inr response \<Rightarrow> process_response response,
                \<lparr>now = now w + latency ?rep, trace = trace w @ [Sent (now w) ?p ?rep]\<rparr>)"
    by (simp add: priv_request_def Let_def s send_def prepare_headers split: sum.split)
  with g show ?thesis by blast
qed

lemma priv_request_no_secret:
  "api_secret self = None \<Longrightarrow> priv_request env self meth path ps js w = (Inl AttributeError, w)"
  by (simp add: priv_request_def Let_def sign_request_no_secret)

lemmas run_defs =
  priv_get_def priv_post_def priv_delete_def priv_request_def new_request_def sign_request_def
  signature_payload_def prepare_def send_def Let_def encode_params_def json_dumps_def
  json_scalar_def py_str_def ENDPOINT_def ms_timestamp_def upper_GET upper_POST upper_DELETE
  map_of_dict_set example_env_def example_client_def str_eval sent_events_def
  process_response_def subscript_def ok_response_def error_response_def raise_for_status_def
  slept_events_def

section \<open>Envelope decoding\<close>

lemma process_response_undecodable:
  "json_body r = None \<Longrightarrow>
   process_response r =
     (if 400 \<le> status_code r \<and> status_code r < 600 then Inl (HTTPError (status_code r))
      else Inl ValueError)"
  by (simp add: process_response_def raise_for_status_def)

text \<open>
  Claim C6. A body that decodes to an envelope with a true \<^verbatim>\<open>success\<close> yields the
  \<^verbatim>\<open>result\<close> payload itself; an envelope with a false \<^verbatim>\<open>success\<close> fails with
  \<^verbatim>\<open>Exception\<close> carrying the server's \<^verbatim>\<open>error\<close> string unchanged; a body that is
  not JSON fails with the transport's own error, the \<^verbatim>\<open>HTTPError\<close> of a 4xx/5xx
  status or else the re-raised decoding error, and never with \<^verbatim>\<open>Exception\<close>.
\<close>

theorem process_response_envelope:
  "(json_body r = Some (PDict d) \<and> map_of d ''success'' = Some (PBool True) \<and>
      map_of d ''result'' = Some v
      \<longrightarrow> process_response r = Inr v)
   \<and> (json_body r = Some (PDict d) \<and> map_of d ''success'' = Some (PBool False) \<and>
      map_of d ''error'' = Some (PStr msg)
      \<longrightarrow> process_response r = Inl (Exception (PStr msg)))
   \<and> (json_body r = None
      \<longrightarrow> (process_response r = Inl (HTTPError (status_code r)) \<and> 400 \<le> status_code r \<and>
             status_code r < 600
           \<or> process_response r = Inl ValueError \<and> \<not> (400 \<le> status_code r \<and> status_code r < 600))
          \<and> (\<forall>m. process_response r \<noteq> Inl (Exception m)))"
proof (intro conjI impI)
  assume "json_body r = Some (PDict d) \<and> map_of d ''success'' = Some (PBool True) \<and>
      map_of d ''result'' = Some v"
  then show "process_response r = Inr v"
    by (simp add: process_response_def subscript_def)
next
  assume "json_body r = Some (PDict d) \<and> map_of d ''success'' = Some (PBool False) \<and>
      map_of d ''error'' = Some (PStr msg)"
  then show "process_response r = Inl (Exception (PStr msg))"
    by (simp add: process_response_def subscript_def)
next
  assume "json_body r = None"
  then show "process_response r = Inl (HTTPError (status_code r)) \<and> 400 \<le> status_code r \<and>
             status_code r < 600
           \<or> process_response r = Inl ValueError \<and> \<not> (400 \<le> status_code r \<and> status_code r < 600)"
    by (simp add: process_response_undecodable)
next
  assume "json_body r = None"
  then show "\<forall>m. process_response r \<noteq> Inl (Exception m)"
    by (simp add: process_response_undecodable)
qed

theorem process_response_envelope_witness:
  "process_response
     \<lparr>status_code = 200,
      json_body = Some (PDict [(''success'', PBool True), (''result'', PDict [(''x'', PInt 1)])])\<rparr>
     = Inr (PDict [(''x'', PInt 1)])
   \<and> process_response
     \<lparr>status_code = 400,
      json_body = Some (PDict [(''success'', PBool False), (''error'', PStr ''bad request'')])\<rparr>
     = Inl (Exception (PStr ''bad request''))
   \<and> process_response \<lparr>status_code = 502, json_body = None\<rparr> = Inl (HTTPError 502)
   \<and> process_response \<lparr>status_code = 200, json_body = None\<rparr> = Inl ValueError"
proof -
  let ?ok = "[(''success'', PBool True), (''result'', PDict [(''x'', PInt 1)])]"
  let ?bad = "[(''success'', PBool False), (''error'', PStr ''bad request'')]"
  have a: "process_response \<lparr>status_code = 200, json_body = Some (PDict ?ok)\<rparr>
             = Inr (PDict [(''x'', PInt 1)])"
    using process_response_envelope
      [of "\<lparr>status_code = 200, json_body = Some (PDict ?ok)\<rparr>" ?ok "PDict [(''x'', PInt 1)]"]
    by simp
  have b: "process_response \<lparr>status_code = 400, json_body = Some (PDict ?bad)\<rparr>
             = Inl (Exception (PStr ''bad request''))"
    using process_response_envelope
      [of "\<lparr>status_code = 400, json_body = Some (PDict ?bad)\<rparr>" ?bad _ "''bad request''"]
    by simp
  have c: "process_response \<lparr>status_code = 502, json_body = None\<rparr> = Inl (HTTPError 502)"
    using process_response_envelope [of "\<lparr>status_code = 502, json_body = None\<rparr>"]
    by simp
  have d: "process_response \<lparr>status_code = 200, json_body = None\<rparr> = Inl ValueError"
    using process_response_envelope [of "\<lparr>status_code = 200, json_body = None\<rparr>"]
    by simp
  from a b c d show ?thesis by simp
qed
section \<open>Signing\<close>

text \<open>
  Claim C7. When \<^verbatim>\<open>_sign_request\<close> returns, the signed bytes are, with nothing in
  between, the decimal milliseconds timestamp, the method in upper case, the path of
  the URL with its query string, and the body when there is one; the header
  \<^verbatim>\<open>FTX-SIGN\<close> is the hex HMAC-SHA256 of these bytes under the secret, and \<^verbatim>\<open>FTX-TS\<close>
  is the decimal string of the same timestamp.
\<close>

theorem sign_request_headers:
  assumes "sign_request env self t request = Inr signed"
  shows "\<exists>secret payload.
           api_secret self = Some secret
         \<and> payload = str_int (ms_timestamp t) @ upper (http_method request)
                       @ path_url (prepare env request)
                       @ (case body (prepare env request) of None \<Rightarrow> [] | Some b \<Rightarrow> b)
         \<and> payload = signature_payload env (ms_timestamp t) request
         \<and> map_of (headers signed) ''FTX-SIGN'' = Some (Some (hmac_sha256_hex env secret payload))
         \<and> map_of (headers signed) ''FTX-TS'' = Some (Some (str_int (ms_timestamp t)))"
proof (cases "api_secret self")
  case None
  with assms show ?thesis by (simp add: sign_request_def Let_def)
next
  case (Some secret)
  let ?payload = "signature_payload env (ms_timestamp t) request"
  have m: "p_method (prepare env request) = upper (http_method request)"
    by (simp add: prepare_def Let_def)
  have shape: "?payload = str_int (ms_timestamp t) @ upper (http_method request)
                       @ path_url (prepare env request)
                       @ (case body (prepare env request) of None \<Rightarrow> [] | Some b \<Rightarrow> b)"
    by (simp add: signature_payload_concat m)
  from assms Some have sign: "map_of (headers signed) ''FTX-SIGN''
      = Some (Some (hmac_sha256_hex env secret ?payload))"
    by (auto simp: sign_request_def Let_def map_of_dict_set split: option.splits if_splits)
  from assms Some have ts: "map_of (headers signed) ''FTX-TS''
      = Some (Some (str_int (ms_timestamp t)))"
    by (auto simp: sign_request_def Let_def map_of_dict_set split: option.splits if_splits)
  from Some shape sign ts show ?thesis by simp
qed

theorem sign_request_headers_witness:
  "\<exists>signed.
     sign_request example_env example_client 2
       \<lparr>http_method = ''POST'', url = ENDPOINT @ ''orders'', params = [],
        json = Some [(''a'', SInt 1)], headers = []\<rparr> = Inr signed
   \<and> map_of (headers signed) ''FTX-TS'' = Some (Some ''2000'')
   \<and> map_of (headers signed) ''FTX-SIGN''
       = Some (Some ''hmac-sha256(secret,2000POST/api/orders{\"a\": 1})'')"
proof -
  let ?req = "\<lparr>http_method = ''POST'', url = ENDPOINT @ ''orders'', params = [],
        json = Some [(''a'', SInt 1)], headers = []\<rparr>"
  obtain signed where s: "sign_request example_env example_client 2 ?req = Inr signed"
    by (simp add: sign_request_def example_client_def Let_def)
  from sign_request_headers [OF s] obtain secret payload where
    k: "api_secret example_client = Some secret" and
    p: "payload = str_int (ms_timestamp 2) @ upper (http_method ?req)
          @ path_url (prepare example_env ?req)
          @ (case body (prepare example_env ?req) of None \<Rightarrow> [] | Some b \<Rightarrow> b)" and
    sg: "map_of (headers signed) ''FTX-SIGN''
          = Some (Some (hmac_sha256_hex example_env secret payload))" and
    ts: "map_of (headers signed) ''FTX-TS'' = Some (Some (str_int (ms_timestamp 2)))"
    by blast
  from k have secret: "secret = ''secret''"
    by (simp add: example_client_def)
  have t2000: "str_int (ms_timestamp 2) = ''2000''"
    by (simp add: ms_timestamp_def str_eval)
  have payload: "payload = ''2000POST/api/orders{\"a\": 1}''"
    unfolding p t2000
    by (simp add: prepare_def Let_def upper_def upper_char_def encode_params_def json_dumps_def
        json_scalar_def example_env_def ENDPOINT_def str_eval)
  from s sg ts secret payload t2000 show ?thesis
    by (simp add: example_env_def)
qed

section \<open>Parameters whose value is None\<close>








section \<open>Validation in modify_order\<close>

text \<open>
  Claim C9. With both identifiers or with neither, \<^verbatim>\<open>modify_order\<close> raises
  \<^verbatim>\<open>AssertionError\<close> and the world is what it was: nothing was sent, no time passed.
\<close>

theorem modify_order_rejects_ids:
  assumes "(existing_order_id = None) = (existing_client_order_id = None)"
  shows "modify_order env self existing_order_id existing_client_order_id price size'
           client_order_id w
         = (Inl (AssertionError ''Must supply exactly one ID for the order to modify''), w)"
  using assms by (simp add: modify_order_def slow_down_def wrapper_finish_def)

theorem modify_order_rejects_ids_witness:
  "modify_order example_env example_client (Some ''42'') (Some ''mine'') (Some 10) None None
     \<lparr>now = 0, trace = []\<rparr>
     = (Inl (AssertionError ''Must supply exactly one ID for the order to modify''),
        \<lparr>now = 0, trace = []\<rparr>)
   \<and> modify_order example_env example_client None None (Some 10) None None
     \<lparr>now = 0, trace = []\<rparr>
     = (Inl (AssertionError ''Must supply exactly one ID for the order to modify''),
        \<lparr>now = 0, trace = []\<rparr>)"
proof -
  have both: "(Some ''42'' = (None :: string option)) = (Some ''mine'' = (None :: string option))"
    by simp
  have neither: "((None :: string option) = None) = ((None :: string option) = None)"
    by simp
  from modify_order_rejects_ids [OF both] modify_order_rejects_ids [OF neither]
  show ?thesis by simp
qed

section \<open>The throttle\<close>

lemma fst_slow_down: "fst (slow_down func w) = fst (func w)"
  by (cases "func w" rule: prod.exhaust; cases "fst (func w)")
     (auto simp: slow_down_def wrapper_finish_def Let_def)

lemma fst_wrapper_finish: "fst (wrapper_finish t0 rw) = fst rw"
  by (cases rw; cases "fst rw") (auto simp: wrapper_finish_def Let_def)

text \<open>
  Claim C8, as the code has it. The wrapper starts the wrapped call at once. When the
  call returns a value, the time it took is measured: under 0.05 s, the wrapper sleeps
  for exactly the difference, after everything the call did, and then returns the
  value; otherwise it returns the value with no delay. When the call raises, the
  exception leaves the wrapper as it is: nothing is measured and nothing is slept.
\<close>

theorem slow_down_delay:
  "(func w = (Inr v, w1) \<and> now w1 - now w < 5 / 100 \<longrightarrow>
      slow_down func w
        = (Inr v, \<lparr>now = now w1 + (5 / 100 - (now w1 - now w)),
                   trace = trace w1 @ [Slept (now w1) (5 / 100 - (now w1 - now w))]\<rparr>))
   \<and> (func w = (Inr v, w1) \<and> \<not> now w1 - now w < 5 / 100 \<longrightarrow> slow_down func w = (Inr v, w1))
   \<and> (func w = (Inl e, w1) \<longrightarrow> slow_down func w = (Inl e, w1))"
  by (simp add: slow_down_def wrapper_finish_def sleep_def Let_def)

theorem slow_down_delay_witness:
  "(let (r, w) = get_positions quick_env example_client False \<lparr>now = 0, trace = []\<rparr>
    in r = Inr (PList []) \<and> now w = 5 / 100 \<and> send_times (trace w) = [0]
       \<and> slept_events w = [Slept (1 / 100) (4 / 100)])
   \<and> (let (r, w) = get_positions slow_env example_client False \<lparr>now = 0, trace = []\<rparr>
      in r = Inr (PList []) \<and> now w = 8 / 100 \<and> send_times (trace w) = [0]
         \<and> slept_events w = [])
   \<and> get_positions example_env \<lparr>api_key = None, api_secret = None, subaccount_name = None\<rparr>
        False \<lparr>now = 0, trace = []\<rparr>
      = (Inl AttributeError, \<lparr>now = 0, trace = []\<rparr>)"
proof -
  let ?w = "\<lparr>now = 0, trace = []\<rparr>"
  let ?nobody = "\<lparr>api_key = None, api_secret = None, subaccount_name = None\<rparr>"
  let ?ps = "Some [(''showAvgPrice'', SBool False)]"
  obtain q where q: "priv_get quick_env example_client ''positions'' ?ps ?w = (Inr (PList []), q)"
    and qn: "now q = 1 / 100" and qt: "send_times (trace q) = [0]" and qs: "slept_events q = []"
    by (simp add: quick_env_def run_defs)
  obtain s where s: "priv_get slow_env example_client ''positions'' ?ps ?w = (Inr (PList []), s)"
    and sn: "now s = 8 / 100" and st: "send_times (trace s) = [0]" and ss: "slept_events s = []"
    by (simp add: slow_env_def run_defs)
  have n: "priv_get example_env ?nobody ''positions'' ?ps ?w = (Inl AttributeError, ?w)"
    by (simp add: priv_get_def priv_request_no_secret)
  from slow_down_delay [of "priv_get quick_env example_client ''positions'' ?ps" ?w "PList []" q]
    q qn
  have a: "get_positions quick_env example_client False ?w
      = (Inr (PList []), \<lparr>now = 5 / 100, trace = trace q @ [Slept (1 / 100) (4 / 100)]\<rparr>)"
    by (simp add: get_positions_def)
  from slow_down_delay [of "priv_get slow_env example_client ''positions'' ?ps" ?w "PList []" s]
    s sn
  have b: "get_positions slow_env example_client False ?w = (Inr (PList []), s)"
    by (simp add: get_positions_def)
  from slow_down_delay [of "priv_get example_env ?nobody ''positions'' ?ps" ?w _ ?w AttributeError]
    n
  have c: "get_positions example_env ?nobody False ?w = (Inl AttributeError, ?w)"
    by (simp add: get_positions_def)
  from a b c qt qs sn st ss show ?thesis
    by (simp add: send_times_append slept_events_def)
qed

text \<open>
  The claim as stated fails for a call that raises: the exchange refuses the request
  after 10 ms, and the wrapper is left at that moment, with no sleep.
\<close>

theorem raising_call_not_delayed_counterexample:
  "fst (get_positions refusing_env example_client False \<lparr>now = 0, trace = []\<rparr>)
     = Inl (Exception (PStr ''Not logged in''))
   \<and> now (snd (get_positions refusing_env example_client False \<lparr>now = 0, trace = []\<rparr>))
     = 1 / 100
   \<and> send_times (trace (snd (get_positions refusing_env example_client False
        \<lparr>now = 0, trace = []\<rparr>))) = [0]
   \<and> slept_events (snd (get_positions refusing_env example_client False
        \<lparr>now = 0, trace = []\<rparr>)) = []"
  by (simp add: get_positions_def slow_down_def wrapper_finish_def refusing_env_def run_defs)

section \<open>Looking up a position\<close>

lemma next_filter_future_none:
  assumes "\<forall>x\<in>set xs. \<exists>f. subscript x ''future'' = Inr f \<and> f \<noteq> PStr name"
  shows "next_filter_future name xs = Inr PNone"
  using assms by (induction xs) auto

lemma next_filter_future_first:
  assumes "\<forall>y\<in>set ys. \<exists>f. subscript y ''future'' = Inr f \<and> f \<noteq> PStr name"
    and "subscript x ''future'' = Inr (PStr name)"
  shows "next_filter_future name (ys @ x # zs) = Inr x"
  using assms by (induction ys) auto

lemma get_position_result:
  assumes "get_positions env self show_avg_price w = (Inr (PList xs), w1)"
  shows "fst (get_position env self name show_avg_price w) = next_filter_future name xs"
  using assms by (simp add: get_position_def fst_slow_down py_iter_def)

text \<open>
  Claim C10. Let \<^verbatim>\<open>get_positions\<close> return a list of positions, each a dict with a
  \<^verbatim>\<open>future\<close> field. If no entry has the requested name, \<^verbatim>\<open>get_position\<close> returns
  \<^verbatim>\<open>None\<close>; otherwise it returns the first entry, in list order, that has it.
\<close>

theorem get_position_first_match:
  assumes "get_positions env self show_avg_price w = (Inr (PList xs), w1)"
    and "\<forall>x\<in>set xs. \<exists>f. subscript x ''future'' = Inr f"
  shows "((\<forall>x\<in>set xs. subscript x ''future'' \<noteq> Inr (PStr name))
            \<longrightarrow> fst (get_position env self name show_avg_price w) = Inr PNone)
       \<and> (\<forall>ys x zs. xs = ys @ x # zs \<and> subscript x ''future'' = Inr (PStr name)
              \<and> (\<forall>y\<in>set ys. subscript y ''future'' \<noteq> Inr (PStr name))
            \<longrightarrow> fst (get_position env self name show_avg_price w) = Inr x)"
proof (intro conjI impI allI)
  assume no: "\<forall>x\<in>set xs. subscript x ''future'' \<noteq> Inr (PStr name)"
  with assms(2) have "\<forall>x\<in>set xs. \<exists>f. subscript x ''future'' = Inr f \<and> f \<noteq> PStr name"
    by fastforce
  then show "fst (get_position env self name show_avg_price w) = Inr PNone"
    by (simp add: get_position_result [OF assms(1)] next_filter_future_none)
next
  fix ys x zs
  assume h: "xs = ys @ x # zs \<and> subscript x ''future'' = Inr (PStr name)
              \<and> (\<forall>y\<in>set ys. subscript y ''future'' \<noteq> Inr (PStr name))"
  with assms(2) have "\<forall>y\<in>set ys. \<exists>f. subscript y ''future'' = Inr f \<and> f \<noteq> PStr name"
    by fastforce
  with h show "fst (get_position env self name show_avg_price w) = Inr x"
    by (simp add: get_position_result [OF assms(1)] next_filter_future_first)
qed

theorem get_position_first_match_witness:
  "fst (get_position positions_env example_client ''BTC-PERP'' False \<lparr>now = 0, trace = []\<rparr>)
     = Inr (position ''BTC-PERP'' 2)
   \<and> fst (get_position positions_env example_client ''SOL-PERP'' False \<lparr>now = 0, trace = []\<rparr>)
     = Inr PNone"
proof -
  let ?w = "\<lparr>now = 0, trace = []\<rparr>"
  let ?xs = "[position ''ETH-PERP'' 1, position ''BTC-PERP'' 2, position ''BTC-PERP'' 3]"
  obtain w1 where g: "get_positions positions_env example_client False ?w = (Inr (PList ?xs), w1)"
    by (simp add: get_positions_def slow_down_def wrapper_finish_def positions_env_def run_defs)
  have wf: "\<forall>x\<in>set ?xs. \<exists>f. subscript x ''future'' = Inr f"
    by (simp add: position_def subscript_def)
  note t = get_position_first_match [OF g wf]
  have "fst (get_position positions_env example_client ''BTC-PERP'' False ?w)
      = Inr (position ''BTC-PERP'' 2)"
    using t [of "''BTC-PERP''", THEN conjunct2, rule_format,
        of "[position ''ETH-PERP'' 1]" "position ''BTC-PERP'' 2" "[position ''BTC-PERP'' 3]"]
    by (simp add: position_def subscript_def)
  moreover have "fst (get_position positions_env example_client ''SOL-PERP'' False ?w) = Inr PNone"
    using t [of "''SOL-PERP''", THEN conjunct1]
    by (simp add: position_def subscript_def)
  ultimately show ?thesis by simp
qed

section \<open>One page of the trade history\<close>

lemma priv_get_cases:
  assumes "priv_get env self path ps w = (res, w1)"
  shows "(res = Inl AttributeError \<and> w1 = w)
       \<or> (\<exists>p rep. trace w1 = trace w @ [Sent (now w) p rep] \<and> now w1 = now w + latency rep
             \<and> res = (case outcome rep of Inl e \<Rightarrow> Inl e | Inr r \<Rightarrow> process_response r)
             \<and> path_url p = path_url (prepare env (new_request ''GET'' path ps None)))"
proof (cases "api_secret self")
  case None
  with assms show ?thesis
    by (simp add: priv_get_def priv_request_no_secret)
next
  case (Some secret)
  from priv_request_sent [OF Some, of env "''GET''" path ps None w] assms
  show ?thesis
    by (auto simp: priv_get_def)
qed

lemma priv_get_Inr:
  assumes "priv_get env self path ps w = (Inr v, w1)"
  shows "\<exists>p rep. trace w1 = trace w @ [Sent (now w) p rep] \<and> now w1 = now w + latency rep
             \<and> page_of rep = (case py_iter v of Inl e \<Rightarrow> None | Inr page \<Rightarrow> Some page)
             \<and> path_url p = path_url (prepare env (new_request ''GET'' path ps None))"
proof -
  from priv_get_cases [OF assms] obtain p rep where
    t: "trace w1 = trace w @ [Sent (now w) p rep]" and n: "now w1 = now w + latency rep" and
    r: "Inr v = (case outcome rep of Inl e \<Rightarrow> Inl e | Inr r \<Rightarrow> process_response r)" and
    u: "path_url p = path_url (prepare env (new_request ''GET'' path ps None))"
    by auto
  from r obtain resp where "outcome rep = Inr resp" and "process_response resp = Inr v"
    by (cases "outcome rep") auto
  then have "page_of rep = (case py_iter v of Inl e \<Rightarrow> None | Inr page \<Rightarrow> Some page)"
    by (simp add: page_of_def)
  with t n u show ?thesis by blast
qed

lemma dedupe_Inr:
  "dedupe ids page = Inr ys \<Longrightarrow>
     ys = filter (\<lambda>r. \<not> seen ids r) page \<and> (\<forall>r\<in>set page. \<exists>k. trade_key r = Inr k)"
  by (induction page arbitrary: ys) (auto simp: seen_def split: sum.splits)

lemma dedupe_wf:
  "\<forall>r\<in>set page. \<exists>k. trade_key r = Inr k \<Longrightarrow>
     dedupe ids page = Inr (filter (\<lambda>r. \<not> seen ids r) page)"
  by (induction page) (auto simp: seen_def split: sum.splits)

lemma min_from_least:
  "min_from env m ts = Inr d \<Longrightarrow>
     d \<le> m \<and> (d = m \<or> list_ex (\<lambda>t. trade_time env t = Inr d) ts)
     \<and> list_all (\<lambda>t. case trade_time env t of Inl e \<Rightarrow> False | Inr x \<Rightarrow> d \<le> x) ts"
proof (induction ts arbitrary: m)
  case Nil
  then show ?case by simp
next
  case (Cons t ts)
  then obtain x where x: "trade_time env t = Inr x"
    and r: "min_from env (if x < m then x else m) ts = Inr d"
    by (auto split: sum.splits)
  from Cons.IH [OF r] x show ?case
    by (auto split: if_splits)
qed

lemma min_time_least: "min_time env page = Inr d \<Longrightarrow> least_time env page d"
  by (cases page)
     (auto simp: min_time_def least_time_def split: sum.splits dest!: min_from_least)

lemma loop_body_Break:
  assumes "loop_body env ids results response = Inr (Break rs)"
  shows "\<exists>page. py_iter response = Inr page \<and> length page < limit
           \<and> rs = results @ filter (\<lambda>r. \<not> seen ids r) page
           \<and> (\<forall>r\<in>set page. \<exists>k. trade_key r = Inr k)"
proof -
  from assms obtain page where p: "py_iter response = Inr page"
    by (auto simp: loop_body_def split: sum.splits)
  with assms obtain ys where d: "dedupe ids page = Inr ys"
    by (auto simp: loop_body_def split: sum.splits)
  from assms p d have "length page < limit" and "rs = results @ ys"
    by (auto simp: loop_body_def Let_def limit_def split: sum.splits if_splits)
  with p dedupe_Inr [OF d] show ?thesis by blast
qed

lemma loop_body_Continue:
  assumes "loop_body env ids results response = Inr (Continue ids' results' c)"
  shows "\<exists>page d. py_iter response = Inr page \<and> limit \<le> length page
           \<and> results' = results @ filter (\<lambda>r. \<not> seen ids r) page
           \<and> ids' = ids \<union> id_keys (filter (\<lambda>r. \<not> seen ids r) page)
           \<and> (\<forall>r\<in>set page. \<exists>k. trade_key r = Inr k)
           \<and> least_time env page d \<and> c = timestamp d"
proof -
  from assms obtain page where p: "py_iter response = Inr page"
    by (auto simp: loop_body_def split: sum.splits)
  with assms obtain ys where d: "dedupe ids page = Inr ys"
    by (auto simp: loop_body_def split: sum.splits)
  from assms p d obtain m where m: "min_time env page = Inr m" and "limit \<le> length page"
    and "results' = results @ ys" and "ids' = ids \<union> id_keys ys" and "c = timestamp m"
    by (auto simp: loop_body_def Let_def split: sum.splits if_splits)
  with p dedupe_Inr [OF d] min_time_least [OF m] show ?thesis by blast
qed

lemma loop_body_short:
  assumes "py_iter response = Inr page" and "length page < limit"
    and "loop_body env ids results response = Inr s"
  shows "s = Break (results @ filter (\<lambda>r. \<not> seen ids r) page)"
proof (cases s)
  case (Break rs)
  with loop_body_Break [of env ids results response rs] assms show ?thesis by auto
next
  case (Continue ids' results' c)
  with loop_body_Continue [of env ids results response ids' results' c] assms show ?thesis by auto
qed

lemma loop_body_full:
  assumes "py_iter response = Inr page" and "limit \<le> length page"
    and "loop_body env ids results response = Inr s"
  shows "\<exists>ids' results' c. s = Continue ids' results' c"
proof (cases s)
  case (Break rs)
  with loop_body_Break [of env ids results response rs] assms show ?thesis by auto
next
  case (Continue ids' results' c)
  then show ?thesis by blast
qed

lemma trades_loop_Suc_cases:
  assumes "trades_loop (Suc fuel) env self market st ids results et w = Some (res, w1)"
  obtains (fail) e where
      "priv_get env self (trades_path market) (Some (trades_params et st)) w = (Inl e, w1)"
      "res = Inl e"
  | (raise) response e where
      "priv_get env self (trades_path market) (Some (trades_params et st)) w = (Inr response, w1)"
      "loop_body env ids results response = Inl e" "res = Inl e"
  | (break) response rs where
      "priv_get env self (trades_path market) (Some (trades_params et st)) w = (Inr response, w1)"
      "loop_body env ids results response = Inr (Break rs)" "res = Inr rs"
  | (continue) response ids' results' c w' where
      "priv_get env self (trades_path market) (Some (trades_params et st)) w = (Inr response, w')"
      "loop_body env ids results response = Inr (Continue ids' results' c)"
      "trades_loop fuel env self market st ids' results' (Some c) w' = Some (res, w1)"
  using assms
  by (auto split: prod.splits sum.splits step.splits)

lemma priv_get_back_to_back:
  assumes "priv_get env self path ps w = (res, w1)"
  shows "\<exists>evs. trace w1 = trace w @ evs \<and> back_to_back (now w) evs
           \<and> now w1 = end_time_of (now w) evs \<and> length evs \<le> 1"
  using priv_get_cases [OF assms] by auto

lemma back_to_back_append:
  "back_to_back t (es @ fs) = (back_to_back t es \<and> back_to_back (end_time_of t es) fs)"
  by (induction t es rule: back_to_back.induct) auto

lemma end_time_of_append:
  "back_to_back t es \<Longrightarrow> end_time_of t (es @ fs) = end_time_of (end_time_of t es) fs"
  by (induction t es rule: back_to_back.induct) auto

lemma trades_loop_back_to_back:
  assumes "trades_loop fuel env self market st ids results et w = Some (res, w1)"
  shows "\<exists>evs. trace w1 = trace w @ evs \<and> back_to_back (now w) evs
           \<and> now w1 = end_time_of (now w) evs"
  using assms
proof (induction fuel arbitrary: ids results et w)
  case 0
  then show ?case by simp
next
  case (Suc fuel)
  from Suc.prems show ?case
  proof (cases rule: trades_loop_Suc_cases)
    case (fail e)
    from priv_get_back_to_back [OF fail(1)] show ?thesis by blast
  next
    case (raise response e)
    from priv_get_back_to_back [OF raise(1)] show ?thesis by blast
  next
    case (break response rs)
    from priv_get_back_to_back [OF break(1)] show ?thesis by blast
  next
    case (continue response ids' results' c w')
    from priv_get_back_to_back [OF continue(1)] obtain evs where
      a: "trace w' = trace w @ evs" "back_to_back (now w) evs" "now w' = end_time_of (now w) evs"
      by blast
    from Suc.IH [OF continue(3)] obtain fs where
      b: "trace w1 = trace w' @ fs" "back_to_back (now w') fs" "now w1 = end_time_of (now w') fs"
      by blast
    from a b have "trace w1 = trace w @ (evs @ fs)" "back_to_back (now w) (evs @ fs)"
      "now w1 = end_time_of (now w) (evs @ fs)"
      by (simp_all add: back_to_back_append end_time_of_append)
    then show ?thesis by blast
  qed
qed


lemma priv_get_trades_page:
  assumes "priv_get env self (trades_path market) (Some (trades_params et st)) w = (Inr response, w1)"
    and "py_iter response = Inr page"
  shows "\<exists>p rep. trace w1 = trace w @ [Sent (now w) p rep]
             \<and> path_url p = trades_path_url env market et st \<and> page_of rep = Some page"
proof -
  from priv_get_Inr [OF assms(1)] assms(2) show ?thesis
    by (auto simp: trades_path_url_def)
qed


lemma stops_at_short_page:
  assumes "trades_loop fuel env self market st ids results et w = Some (Inr rs, w1)"
  shows "\<exists>evs last page. trace w1 = trace w @ evs @ [last]
           \<and> fetched last = Some page \<and> length page < limit
           \<and> (\<forall>e\<in>set evs. \<exists>pg. fetched e = Some pg \<and> limit \<le> length pg)"
  using assms
proof (induction fuel arbitrary: ids results et w)
  case 0
  then show ?case by simp
next
  case (Suc fuel)
  from Suc.prems show ?case
  proof (cases rule: trades_loop_Suc_cases)
    case (break response rs')
    from loop_body_Break [OF break(2)] obtain page where
      pg: "py_iter response = Inr page" "length page < limit" by blast
    from priv_get_trades_page [OF break(1) pg(1)] obtain p rep where
      "trace w1 = trace w @ [] @ [Sent (now w) p rep]" "fetched (Sent (now w) p rep) = Some page"
      by auto
    with pg(2) show ?thesis by (intro exI [of _ "[]"]) auto
  next
    case (continue response ids' results' c w')
    from loop_body_Continue [OF continue(2)] obtain page where
      pg: "py_iter response = Inr page" "limit \<le> length page" by blast
    from priv_get_trades_page [OF continue(1) pg(1)] obtain p rep where
      t: "trace w' = trace w @ [Sent (now w) p rep]" and g: "page_of rep = Some page"
      by blast
    from Suc.IH [OF continue(3)] obtain fs last lp where
      f: "trace w1 = trace w' @ fs @ [last]" "fetched last = Some lp" "length lp < limit"
        "\<forall>e\<in>set fs. \<exists>pg. fetched e = Some pg \<and> limit \<le> length pg"
      by blast
    from t f(1) have "trace w1 = trace w @ (Sent (now w) p rep # fs) @ [last]" by simp
    moreover from g pg(2) f(4)
    have "\<forall>e\<in>set (Sent (now w) p rep # fs). \<exists>pg. fetched e = Some pg \<and> limit \<le> length pg"
      by simp
    ultimately show ?thesis using f(2,3) by blast
  qed simp_all
qed

lemma id_keys_append: "id_keys (xs @ ys) = id_keys xs \<union> id_keys ys"
  by (simp add: id_keys_def)

lemma id_keys_iff: "k \<in> id_keys rs \<longleftrightarrow> (\<exists>r\<in>set rs. trade_key r = Inr k)"
proof
  assume "k \<in> id_keys rs"
  then obtain r where "r \<in> set rs" and "k \<in> set (case trade_key r of Inl e \<Rightarrow> [] | Inr k \<Rightarrow> [k])"
    by (auto simp: id_keys_def)
  then show "\<exists>r\<in>set rs. trade_key r = Inr k"
    by (cases "trade_key r") auto
next
  assume "\<exists>r\<in>set rs. trade_key r = Inr k"
  then show "k \<in> id_keys rs"
    by (force simp: id_keys_def)
qed

lemma seen_iff: "seen ids r \<longleftrightarrow> (\<exists>k\<in>ids. trade_key r = Inr k)"
  by (cases "trade_key r") (auto simp: seen_def)

lemma distinct_keys_append:
  assumes "distinct (map trade_key results)"
    and "distinct (map trade_key page)"
    and "\<forall>r\<in>set results. \<exists>k. trade_key r = Inr k"
  shows "distinct (map trade_key (results @ filter (\<lambda>r. \<not> seen (id_keys results) r) page))"
proof -
  have "distinct (map trade_key (filter (\<lambda>r. \<not> seen (id_keys results) r) page))"
    using assms(2) by (rule distinct_map_filter)
  moreover have "trade_key a \<noteq> trade_key b"
    if "a \<in> set results" and "b \<in> set page" and "\<not> seen (id_keys results) b" for a b
  proof
    assume e: "trade_key a = trade_key b"
    from that(1) assms(3) obtain k where k: "trade_key a = Inr k" by blast
    with that(1) have "k \<in> id_keys results" unfolding id_keys_iff by blast
    moreover from e k have "trade_key b = Inr k" by simp
    ultimately have "seen (id_keys results) b" unfolding seen_iff by blast
    with that(3) show False by simp
  qed
  ultimately show ?thesis
    using assms(1) by auto
qed

lemma id_keys_filter_unseen:
  "ids \<union> id_keys (filter (\<lambda>r. \<not> seen ids r) page) = ids \<union> id_keys page"
proof (intro set_eqI iffI)
  fix k
  assume "k \<in> ids \<union> id_keys (filter (\<lambda>r. \<not> seen ids r) page)"
  then show "k \<in> ids \<union> id_keys page"
    unfolding Un_iff id_keys_iff by auto
next
  fix k
  assume "k \<in> ids \<union> id_keys page"
  then consider "k \<in> ids" | r where "k \<notin> ids" "r \<in> set page" "trade_key r = Inr k"
    unfolding Un_iff id_keys_iff by blast
  then show "k \<in> ids \<union> id_keys (filter (\<lambda>r. \<not> seen ids r) page)"
  proof cases
    case 1
    then show ?thesis by simp
  next
    case 2
    then have "\<not> seen ids r" unfolding seen_iff by auto
    with 2 have "\<exists>r\<in>set (filter (\<lambda>r. \<not> seen ids r) page). trade_key r = Inr k" by auto
    then show ?thesis unfolding Un_iff id_keys_iff by blast
  qed
qed

lemma keys_run:
  assumes "trades_loop fuel env self market st ids results et w = Some (Inr rs, w1)"
    and "ids = id_keys results"
    and "\<forall>r\<in>set results. \<exists>k. trade_key r = Inr k"
  shows "\<exists>evs. trace w1 = trace w @ evs
     \<and> (\<forall>r\<in>set rs. \<exists>k. trade_key r = Inr k)
     \<and> id_keys rs = id_keys results
           \<union> (\<Union>e\<in>set evs. case fetched e of None \<Rightarrow> {} | Some page \<Rightarrow> id_keys page)"
  using assms
proof (induction fuel arbitrary: ids results et w)
  case 0
  then show ?case by simp
next
  case (Suc fuel)
  from Suc.prems(1) show ?case
  proof (cases rule: trades_loop_Suc_cases)
    case (break response rs')
    from loop_body_Break [OF break(2)] obtain page where
      pg: "py_iter response = Inr page" "rs' = results @ filter (\<lambda>r. \<not> seen ids r) page"
        "\<forall>r\<in>set page. \<exists>k. trade_key r = Inr k"
      by blast
    from priv_get_trades_page [OF break(1) pg(1)] obtain p rep where
      t: "trace w1 = trace w @ [Sent (now w) p rep]" and g: "page_of rep = Some page"
      by blast
    have rs: "rs = results @ filter (\<lambda>r. \<not> seen (id_keys results) r) page"
      using break(3) pg(2) Suc.prems(2) by simp
    have k: "\<forall>r\<in>set rs. \<exists>k. trade_key r = Inr k"
      using rs pg(3) Suc.prems(3) by auto
    have i: "id_keys rs = id_keys results \<union> id_keys page"
      unfolding rs by (simp add: id_keys_append id_keys_filter_unseen)
    from t g k i show ?thesis
      by (intro exI [of _ "[Sent (now w) p rep]"]) simp
  next
    case (continue response ids' results' c w')
    from loop_body_Continue [OF continue(2)] obtain page where
      pg: "py_iter response = Inr page" "results' = results @ filter (\<lambda>r. \<not> seen ids r) page"
        "ids' = ids \<union> id_keys (filter (\<lambda>r. \<not> seen ids r) page)"
        "\<forall>r\<in>set page. \<exists>k. trade_key r = Inr k"
      by blast
    from priv_get_trades_page [OF continue(1) pg(1)] obtain p rep where
      t: "trace w' = trace w @ [Sent (now w) p rep]" and g: "page_of rep = Some page"
      by blast
    have r': "results' = results @ filter (\<lambda>r. \<not> seen (id_keys results) r) page"
      using pg(2) Suc.prems(2) by simp
    have i': "ids' = id_keys results'"
      using pg(3) Suc.prems(2) r' by (simp add: id_keys_append)
    have k': "\<forall>r\<in>set results'. \<exists>k. trade_key r = Inr k"
      using r' pg(4) Suc.prems(3) by auto
    have ik: "id_keys results' = id_keys results \<union> id_keys page"
      unfolding r' by (simp add: id_keys_append id_keys_filter_unseen)
    from Suc.IH [OF continue(3) i' k'] obtain fs where
      f: "trace w1 = trace w' @ fs"
        "\<forall>r\<in>set rs. \<exists>k. trade_key r = Inr k"
        "id_keys rs = id_keys results'
           \<union> (\<Union>e\<in>set fs. case fetched e of None \<Rightarrow> {} | Some page \<Rightarrow> id_keys page)"
      by blast
    from t f(1) have a: "trace w1 = trace w @ (Sent (now w) p rep # fs)" by simp
    from f(3) ik g have b: "id_keys rs = id_keys results
        \<union> (\<Union>e\<in>set (Sent (now w) p rep # fs).
              case fetched e of None \<Rightarrow> {} | Some page \<Rightarrow> id_keys page)"
      by auto
    from a f(2) b show ?thesis
      by (intro exI [of _ "Sent (now w) p rep # fs"]) simp
  qed simp_all
qed

lemma distinct_run:
  assumes "trades_loop fuel env self market st ids results et w = Some (Inr rs, w1)"
    and "ids = id_keys results"
    and "\<forall>r\<in>set results. \<exists>k. trade_key r = Inr k"
    and "distinct (map trade_key results)"
    and "trace w1 = trace w @ evs"
    and "\<forall>e\<in>set evs. \<forall>page. fetched e = Some page \<longrightarrow> distinct (map trade_key page)"
  shows "distinct (map trade_key rs)"
  using assms
proof (induction fuel arbitrary: ids results et w evs)
  case 0
  then show ?case by simp
next
  case (Suc fuel)
  from Suc.prems(1) show ?case
  proof (cases rule: trades_loop_Suc_cases)
    case (break response rs')
    from loop_body_Break [OF break(2)] obtain page where
      pg: "py_iter response = Inr page" "rs' = results @ filter (\<lambda>r. \<not> seen ids r) page"
      by blast
    from priv_get_trades_page [OF break(1) pg(1)] obtain p rep where
      t: "trace w1 = trace w @ [Sent (now w) p rep]" and g: "page_of rep = Some page"
      by blast
    from t Suc.prems(5) have "evs = [Sent (now w) p rep]" by simp
    with Suc.prems(6) g have dp: "distinct (map trade_key page)" by simp
    have rs: "rs = results @ filter (\<lambda>r. \<not> seen (id_keys results) r) page"
      using break(3) pg(2) Suc.prems(2) by simp
    show ?thesis
      unfolding rs using Suc.prems(4) dp Suc.prems(3) by (rule distinct_keys_append)
  next
    case (continue response ids' results' c w')
    from loop_body_Continue [OF continue(2)] obtain page where
      pg: "py_iter response = Inr page" "results' = results @ filter (\<lambda>r. \<not> seen ids r) page"
        "ids' = ids \<union> id_keys (filter (\<lambda>r. \<not> seen ids r) page)"
        "\<forall>r\<in>set page. \<exists>k. trade_key r = Inr k"
      by blast
    from priv_get_trades_page [OF continue(1) pg(1)] obtain p rep where
      t: "trace w' = trace w @ [Sent (now w) p rep]" and g: "page_of rep = Some page"
      by blast
    from trades_loop_back_to_back [OF continue(3)] obtain fs where
      f: "trace w1 = trace w' @ fs" by blast
    with t Suc.prems(5) have evs: "evs = Sent (now w) p rep # fs" by simp
    with Suc.prems(6) g have dp: "distinct (map trade_key page)"
      and df: "\<forall>e\<in>set fs. \<forall>page. fetched e = Some page \<longrightarrow> distinct (map trade_key page)"
      by simp_all
    have r': "results' = results @ filter (\<lambda>r. \<not> seen (id_keys results) r) page"
      using pg(2) Suc.prems(2) by simp
    have i': "ids' = id_keys results'"
      using pg(3) Suc.prems(2) r' by (simp add: id_keys_append)
    have k': "\<forall>r\<in>set results'. \<exists>k. trade_key r = Inr k"
      using r' pg(4) Suc.prems(3) by auto
    have d': "distinct (map trade_key results')"
      unfolding r' using Suc.prems(4) dp Suc.prems(3) by (rule distinct_keys_append)
    from Suc.IH [OF continue(3) i' k' d' f df] show ?thesis .
  qed simp_all
qed

section \<open>The example exchanges\<close>

lemma trade_key_trade: "trade_key (trade i t) = Inr (KNum (of_int i))"
  by (simp add: trade_key_def trade_def subscript_def hash_key_def)

lemma trade_time_trade:
  "parse_datetime env t = Some d \<Longrightarrow> trade_time env (trade i t) = Inr d"
  by (simp add: trade_time_def trade_def subscript_def)

lemma length_full_page: "length full_page = 100"
  by (simp add: full_page_def)

lemma full_page_keys: "\<forall>r\<in>set full_page. \<exists>k. trade_key r = Inr k"
  by (auto simp: full_page_def trade_key_trade)

lemma dedupe_full_page: "dedupe {} full_page = Inr full_page"
  by (simp add: dedupe_wf [OF full_page_keys] seen_def split: sum.split)

lemma min_from_const:
  "\<forall>r\<in>set ts. trade_time env r = Inr d \<Longrightarrow> min_from env d ts = Inr d"
  by (induction ts) auto

lemma min_time_const:
  assumes "page \<noteq> []" and "\<forall>r\<in>set page. trade_time env r = Inr d"
  shows "min_time env page = Inr d"
  using assms by (cases page) (simp_all add: min_time_def min_from_const)

lemma min_time_full_page:
  assumes "parse_datetime env ''1970-01-01T00:00:20+00:00'' = Some d"
  shows "min_time env full_page = Inr d"
proof (rule min_time_const)
  show "full_page \<noteq> []" using length_full_page by auto
  show "\<forall>r\<in>set full_page. trade_time env r = Inr d"
    using assms by (auto simp: full_page_def trade_time_trade)
qed

lemma seen_full_page:
  "seen (id_keys full_page) (trade j t) \<longleftrightarrow> 0 \<le> j \<and> j < 100"
proof -
  have "seen (id_keys full_page) (trade j t) \<longleftrightarrow> (\<exists>i<100. j = int i)"
    by (auto simp: seen_iff id_keys_iff trade_key_trade full_page_def)
  also have "\<dots> \<longleftrightarrow> 0 \<le> j \<and> j < 100"
  proof
    assume "\<exists>i<100. j = int i" then show "0 \<le> j \<and> j < 100" by auto
  next
    assume "0 \<le> j \<and> j < 100"
    then have "nat j < 100 \<and> j = int (nat j)" by arith
    then show "\<exists>i<100. j = int i" by blast
  qed
  finally show ?thesis .
qed

lemma distinct_full_page: "distinct (map trade_key full_page)"
  by (simp add: full_page_def trade_key_trade comp_def distinct_map inj_on_def)

lemma paged_instant: "parse_datetime paged_env ''1970-01-01T00:00:20+00:00'' = Some 20000000"
  by (simp add: paged_env_def example_env_def example_instants_def)

lemma loop_body_full_page:
  "loop_body paged_env {} [] (PList full_page)
     = Inr (Continue (id_keys full_page) full_page 20)"
  by (simp add: loop_body_def py_iter_def dedupe_full_page length_full_page limit_def
      min_time_full_page [OF paged_instant] timestamp_def)

lemma older_instants:
  "trade_time paged_env (trade i ''1970-01-01T00:00:20+00:00'') = Inr 20000000"
  "trade_time paged_env (trade i ''1970-01-01T00:00:10+00:00'') = Inr 10000000"
  by (simp_all add: trade_time_trade paged_env_def example_env_def example_instants_def)

lemma loop_body_older_page:
  "loop_body paged_env (id_keys full_page) full_page (PList older_page)
     = Inr (Break (full_page @ [trade 100 ''1970-01-01T00:00:10+00:00'']))"
proof -
  have k: "\<forall>r\<in>set older_page. \<exists>k. trade_key r = Inr k"
    by (simp add: older_page_def trade_key_trade)
  have "dedupe (id_keys full_page) older_page = Inr [trade 100 ''1970-01-01T00:00:10+00:00'']"
    by (simp add: dedupe_wf [OF k]) (simp add: older_page_def seen_full_page)
  moreover have "min_time paged_env older_page = Inr 10000000"
    by (simp add: older_page_def min_time_def older_instants)
  moreover have "length older_page = 2" by (simp add: older_page_def)
  ultimately show ?thesis
    by (simp add: loop_body_def py_iter_def limit_def)
qed

lemma first_request:
  "\<exists>p rep. priv_get paged_env example_client ''markets/BTC-PERP/trades''
       (Some (trades_params None None)) \<lparr>now = 0, trace = []\<rparr>
     = (Inr (PList full_page), \<lparr>now = 1 / 100, trace = [Sent 0 p rep]\<rparr>)
     \<and> page_of rep = Some full_page \<and> latency rep = 1 / 100"
  by (simp add: paged_env_def trades_params_def opt_scalar_def run_defs page_of_def py_iter_def)

lemma second_request:
  "\<exists>p rep. priv_get paged_env example_client ''markets/BTC-PERP/trades''
       (Some (trades_params (Some 20) None)) \<lparr>now = t, trace = tr\<rparr>
     = (Inr (PList older_page), \<lparr>now = t + 1 / 100, trace = tr @ [Sent t p rep]\<rparr>)
     \<and> page_of rep = Some older_page \<and> latency rep = 1 / 100"
  by (simp add: paged_env_def trades_params_def opt_scalar_def run_defs page_of_def py_iter_def
      example_float_repr_def strip_zeros_def floor_rat_numeral)

lemma paged_run:
  "\<exists>p rep p' rep'.
     trades_loop (Suc (Suc 0)) paged_env example_client ''BTC-PERP'' None {} [] None
       \<lparr>now = 0, trace = []\<rparr>
     = Some (Inr (full_page @ [trade 100 ''1970-01-01T00:00:10+00:00'']),
             \<lparr>now = 2 / 100, trace = [Sent 0 p rep, Sent (1 / 100) p' rep']\<rparr>)
     \<and> page_of rep = Some full_page \<and> page_of rep' = Some older_page
     \<and> latency rep = 1 / 100 \<and> latency rep' = 1 / 100"
proof -
  from first_request obtain p rep where
    a: "priv_get paged_env example_client ''markets/BTC-PERP/trades''
          (Some (trades_params None None)) \<lparr>now = 0, trace = []\<rparr>
        = (Inr (PList full_page), \<lparr>now = 1 / 100, trace = [Sent 0 p rep]\<rparr>)"
    and a': "page_of rep = Some full_page" "latency rep = 1 / 100"
    by blast
  from second_request [of "1 / 100" "[Sent 0 p rep]"] obtain p' rep' where
    b: "priv_get paged_env example_client ''markets/BTC-PERP/trades''
          (Some (trades_params (Some 20) None)) \<lparr>now = 1 / 100, trace = [Sent 0 p rep]\<rparr>
        = (Inr (PList older_page),
           \<lparr>now = 2 / 100, trace = [Sent 0 p rep, Sent (1 / 100) p' rep']\<rparr>)"
    and b': "page_of rep' = Some older_page" "latency rep' = 1 / 100"
    by auto
  have "trades_loop (Suc (Suc 0)) paged_env example_client ''BTC-PERP'' None {} [] None
          \<lparr>now = 0, trace = []\<rparr>
        = Some (Inr (full_page @ [trade 100 ''1970-01-01T00:00:10+00:00'']),
             \<lparr>now = 2 / 100, trace = [Sent 0 p rep, Sent (1 / 100) p' rep']\<rparr>)"
    by (simp add: trades_path_def a b loop_body_full_page loop_body_older_page)
  with a' b' show ?thesis by blast
qed


lemma quick_request:
  "\<exists>p rep. priv_get quick_env example_client ''markets/BTC-PERP/trades''
       (Some (trades_params None None)) \<lparr>now = 0, trace = []\<rparr>
     = (Inr (PList []), \<lparr>now = 1 / 100, trace = [Sent 0 p rep]\<rparr>)"
  by (simp add: quick_env_def trades_params_def opt_scalar_def run_defs)

lemma distinct_older_page: "distinct (map trade_key older_page)"
  by (simp add: older_page_def trade_key_trade)



section \<open>When the loop stops\<close>

lemma loop_body_empty:
  "py_iter response = Inr [] \<Longrightarrow> loop_body env ids results response = Inr (Break results)"
  by (simp add: loop_body_def)

lemma map_option_fst_wrapper_finish:
  "map_option fst (map_option (wrapper_finish t0) x) = map_option fst x"
  by (cases x) (simp_all add: fst_wrapper_finish)

text \<open>
  Claim C5. A run that returns results ended with a page of fewer than 100 records
  (an empty one included), and every page before it had at least 100. Conversely,
  when the page just fetched is processed without an exception: if it has fewer than
  100 records the loop returns at once, whatever fuel is left, with the results
  accumulated so far, one request after the start of the iteration; if it has 100 or
  more, the loop does not return in this iteration. A first page with no records makes
  the aggregation return the empty list after exactly one request.
\<close>

theorem loop_stops_at_short_page:
  "limit = 100
   \<and> (trades_loop fuel env self market st ids results et w = Some (Inr rs, w1) \<longrightarrow>
        (\<exists>evs last page. trace w1 = trace w @ evs @ [last]
           \<and> fetched last = Some page \<and> length page < limit
           \<and> (\<forall>e\<in>set evs. \<exists>pg. fetched e = Some pg \<and> limit \<le> length pg)))
   \<and> (priv_get env self (trades_path market) (Some (trades_params et st)) w = (Inr response, w1)
        \<and> py_iter response = Inr page \<and> loop_body env ids results response = Inr s \<longrightarrow>
          (length page < limit \<longrightarrow>
             trades_loop (Suc fuel) env self market st ids results et w
               = Some (Inr (results @ filter (\<lambda>r. \<not> seen ids r) page), w1)
             \<and> length (requests_of (trace w1)) = Suc (length (requests_of (trace w))))
        \<and> (limit \<le> length page \<longrightarrow>
             trades_loop (Suc 0) env self market st ids results et w = None))
   \<and> (priv_get env self (trades_path market) (Some (trades_params et st)) w = (Inr response, w1)
        \<and> py_iter response = Inr [] \<longrightarrow>
          trades_loop (Suc fuel) env self market st {} [] et w = Some (Inr [], w1)
        \<and> map_option fst (get_all_trades (Suc fuel) env self market st et w) = Some (Inr [])
        \<and> length (requests_of (trace w1)) = Suc (length (requests_of (trace w))))"
proof (intro conjI impI)
  show "limit = 100" by (simp add: limit_def)
next
  assume "trades_loop fuel env self market st ids results et w = Some (Inr rs, w1)"
  then show "\<exists>evs last page. trace w1 = trace w @ evs @ [last]
           \<and> fetched last = Some page \<and> length page < limit
           \<and> (\<forall>e\<in>set evs. \<exists>pg. fetched e = Some pg \<and> limit \<le> length pg)"
    by (rule stops_at_short_page)
next
  assume h: "priv_get env self (trades_path market) (Some (trades_params et st)) w = (Inr response, w1)
        \<and> py_iter response = Inr page \<and> loop_body env ids results response = Inr s"
    and short: "length page < limit"
  from h short have s: "s = Break (results @ filter (\<lambda>r. \<not> seen ids r) page)"
    by (intro loop_body_short) auto
  with h show "trades_loop (Suc fuel) env self market st ids results et w
               = Some (Inr (results @ filter (\<lambda>r. \<not> seen ids r) page), w1)"
    by simp
next
  assume h: "priv_get env self (trades_path market) (Some (trades_params et st)) w = (Inr response, w1)
        \<and> py_iter response = Inr page \<and> loop_body env ids results response = Inr s"
  then have "priv_get env self (trades_path market) (Some (trades_params et st)) w = (Inr response, w1)"
    by simp
  from priv_get_Inr [OF this]
  show "length (requests_of (trace w1)) = Suc (length (requests_of (trace w)))"
    by (auto simp: requests_of_append)
next
  assume h: "priv_get env self (trades_path market) (Some (trades_params et st)) w = (Inr response, w1)
        \<and> py_iter response = Inr page \<and> loop_body env ids results response = Inr s"
    and full: "limit \<le> length page"
  from h full obtain ids' results' c where "s = Continue ids' results' c"
    using loop_body_full [of response page env ids results s] by auto
  with h show "trades_loop (Suc 0) env self market st ids results et w = None"
    by simp
next
  assume h: "priv_get env self (trades_path market) (Some (trades_params et st)) w = (Inr response, w1)
        \<and> py_iter response = Inr []"
  then show l: "trades_loop (Suc fuel) env self market st {} [] et w = Some (Inr [], w1)"
    by (simp add: loop_body_empty)
  have "map_option fst (get_all_trades (Suc fuel) env self market st et w)
      = map_option fst (trades_loop (Suc fuel) env self market st {} [] et w)"
    unfolding get_all_trades_def Let_def by (rule map_option_fst_wrapper_finish)
  with l show "map_option fst (get_all_trades (Suc fuel) env self market st et w) = Some (Inr [])"
    by simp
next
  assume h: "priv_get env self (trades_path market) (Some (trades_params et st)) w = (Inr response, w1)
        \<and> py_iter response = Inr []"
  then have "priv_get env self (trades_path market) (Some (trades_params et st)) w = (Inr response, w1)"
    by simp
  from priv_get_Inr [OF this]
  show "length (requests_of (trace w1)) = Suc (length (requests_of (trace w)))"
    by (auto simp: requests_of_append)
qed

theorem loop_stops_at_short_page_witness:
  "(\<exists>w1. trades_loop (Suc (Suc 0)) paged_env example_client ''BTC-PERP'' None {} [] None
            \<lparr>now = 0, trace = []\<rparr>
          = Some (Inr (full_page @ [trade 100 ''1970-01-01T00:00:10+00:00'']), w1)
        \<and> map fetched (trace w1) = [Some full_page, Some older_page])
   \<and> length full_page = 100 \<and> length older_page = 2
   \<and> trades_loop (Suc 0) paged_env example_client ''BTC-PERP'' None {} [] None
        \<lparr>now = 0, trace = []\<rparr> = None
   \<and> (\<exists>w1. trades_loop (Suc 5) paged_env example_client ''BTC-PERP'' None
              (id_keys full_page) full_page (Some 20) \<lparr>now = 0, trace = []\<rparr>
            = Some (Inr (full_page @ [trade 100 ''1970-01-01T00:00:10+00:00'']), w1)
          \<and> length (requests_of (trace w1)) = 1)
   \<and> (\<exists>w1. trades_loop (Suc 0) quick_env example_client ''BTC-PERP'' None {} [] None
              \<lparr>now = 0, trace = []\<rparr> = Some (Inr [], w1)
          \<and> length (requests_of (trace w1)) = 1)
   \<and> map_option fst (get_all_trades (Suc 0) quick_env example_client ''BTC-PERP'' None None
        \<lparr>now = 0, trace = []\<rparr>) = Some (Inr [])"
proof -
  let ?w = "\<lparr>now = 0, trace = []\<rparr>"
  let ?rs = "full_page @ [trade 100 ''1970-01-01T00:00:10+00:00'']"
  from paged_run obtain p rep p' rep' where
    run: "trades_loop (Suc (Suc 0)) paged_env example_client ''BTC-PERP'' None {} [] None ?w
        = Some (Inr ?rs, \<lparr>now = 2 / 100, trace = [Sent 0 p rep, Sent (1 / 100) p' rep']\<rparr>)"
    and pages: "page_of rep = Some full_page" "page_of rep' = Some older_page"
    by blast
  from first_request obtain q rq where
    first: "priv_get paged_env example_client (trades_path ''BTC-PERP'')
          (Some (trades_params None None)) ?w
        = (Inr (PList full_page), \<lparr>now = 1 / 100, trace = [Sent 0 q rq]\<rparr>)"
    by (auto simp: trades_path_def)
  from second_request [of 0 "[]"] obtain q' rq' where
    second: "priv_get paged_env example_client (trades_path ''BTC-PERP'')
          (Some (trades_params (Some 20) None)) ?w
        = (Inr (PList older_page), \<lparr>now = 1 / 100, trace = [Sent 0 q' rq']\<rparr>)"
    by (auto simp: trades_path_def)
  from quick_request obtain e re where
    empty: "priv_get quick_env example_client (trades_path ''BTC-PERP'')
          (Some (trades_params None None)) ?w
        = (Inr (PList []), \<lparr>now = 1 / 100, trace = [Sent 0 e re]\<rparr>)"
    by (auto simp: trades_path_def)
  have a: "\<exists>evs last page. [Sent 0 p rep, Sent (1 / 100) p' rep'] = evs @ [last]
           \<and> fetched last = Some page \<and> length page < limit
           \<and> (\<forall>e\<in>set evs. \<exists>pg. fetched e = Some pg \<and> limit \<le> length pg)"
    using loop_stops_at_short_page [where fuel = "Suc (Suc 0)" and env = paged_env
        and self = example_client and market = "''BTC-PERP''" and st = None and ids = "{}"
        and results = "[]" and et = None and w = ?w and rs = ?rs
        and ?w1.0 = "\<lparr>now = 2 / 100, trace = [Sent 0 p rep, Sent (1 / 100) p' rep']\<rparr>",
        THEN conjunct2, THEN conjunct1] run
    by simp
  have b: "trades_loop (Suc 0) paged_env example_client ''BTC-PERP'' None {} [] None ?w = None"
    using loop_stops_at_short_page [where fuel = 0 and env = paged_env
        and self = example_client and market = "''BTC-PERP''" and st = None and ids = "{}"
        and results = "[]" and et = None and w = ?w and response = "PList full_page"
        and page = full_page and s = "Continue (id_keys full_page) full_page 20"
        and ?w1.0 = "\<lparr>now = 1 / 100, trace = [Sent 0 q rq]\<rparr>",
        THEN conjunct2, THEN conjunct2, THEN conjunct1] first
    by (simp add: py_iter_def loop_body_full_page length_full_page limit_def)
  have c: "trades_loop (Suc 5) paged_env example_client ''BTC-PERP'' None
              (id_keys full_page) full_page (Some 20) ?w
            = Some (Inr ?rs, \<lparr>now = 1 / 100, trace = [Sent 0 q' rq']\<rparr>)
          \<and> length (requests_of [Sent 0 q' rq']) = 1"
    using loop_stops_at_short_page [where fuel = 5 and env = paged_env
        and self = example_client and market = "''BTC-PERP''" and st = None
        and ids = "id_keys full_page" and results = full_page and et = "Some 20" and w = ?w
        and response = "PList older_page" and page = older_page and s = "Break ?rs"
        and ?w1.0 = "\<lparr>now = 1 / 100, trace = [Sent 0 q' rq']\<rparr>",
        THEN conjunct2, THEN conjunct2, THEN conjunct1] second
    by (simp add: py_iter_def loop_body_older_page limit_def)
       (simp add: older_page_def seen_full_page)
  have d: "trades_loop (Suc 0) quick_env example_client ''BTC-PERP'' None {} [] None ?w
            = Some (Inr [], \<lparr>now = 1 / 100, trace = [Sent 0 e re]\<rparr>)
          \<and> map_option fst (get_all_trades (Suc 0) quick_env example_client ''BTC-PERP'' None
                None ?w) = Some (Inr [])
          \<and> length (requests_of [Sent 0 e re]) = 1"
    using loop_stops_at_short_page [where fuel = 0 and env = quick_env
        and self = example_client and market = "''BTC-PERP''" and st = None and et = None
        and w = ?w and response = "PList []"
        and ?w1.0 = "\<lparr>now = 1 / 100, trace = [Sent 0 e re]\<rparr>",
        THEN conjunct2, THEN conjunct2, THEN conjunct2] empty
    by (simp add: py_iter_def)
  from a obtain evs l page where
    s: "[Sent 0 p rep, Sent (1 / 100) p' rep'] = evs @ [l]" and
    f: "fetched l = Some page" "length page < limit"
       "\<forall>e\<in>set evs. \<exists>pg. fetched e = Some pg \<and> limit \<le> length pg"
    by blast
  from s have "evs = [Sent 0 p rep]" "l = Sent (1 / 100) p' rep'"
    by (simp_all add: Cons_eq_append_conv)
  with f pages have "length older_page < limit" "limit \<le> length full_page"
    by simp_all
  then have "length full_page = 100" "length older_page = 2"
    by (simp_all add: length_full_page older_page_def)
  with run pages b c d show ?thesis by simp

qed

section \<open>The cursor\<close>



section \<open>Deduplication\<close>

lemma seen_by_id:
  "subscript r ''id'' = subscript r' ''id'' \<Longrightarrow> seen ids r = seen ids r'"
  by (simp add: seen_def trade_key_def)

lemma loop_body_appends:
  assumes "loop_body env ids results response = Inr s"
  shows "\<exists>page. py_iter response = Inr page
           \<and> (case s of Break rs' \<Rightarrow> rs' | Continue ids' rs' c \<Rightarrow> rs')
               = results @ filter (\<lambda>r. \<not> seen ids r) page"
proof (cases s)
  case (Break rs')
  with loop_body_Break [of env ids results response rs'] assms show ?thesis by auto
next
  case (Continue ids' rs' c)
  with loop_body_Continue [of env ids results response ids' rs' c] assms show ?thesis by auto
qed

lemma length_card_keys:
  assumes "distinct (map trade_key rs)" and "\<forall>r\<in>set rs. \<exists>k. trade_key r = Inr k"
  shows "length rs = card (id_keys rs)"
proof -
  have "set (map trade_key rs) = Inr ` id_keys rs"
  proof (intro set_eqI iffI)
    fix x :: "error + pykey" assume "x \<in> set (map trade_key rs)"
    then obtain r where r: "r \<in> set rs" "x = trade_key r" by auto
    with assms(2) obtain k where "trade_key r = Inr k" by blast
    with r have "k \<in> id_keys rs" unfolding id_keys_iff by auto
    with r \<open>trade_key r = Inr k\<close> show "x \<in> Inr ` id_keys rs" by simp
  next
    fix x :: "error + pykey" assume "x \<in> Inr ` id_keys rs"
    then obtain k where "x = Inr k" "k \<in> id_keys rs" by auto
    then show "x \<in> set (map trade_key rs)" unfolding id_keys_iff by force
  qed
  then have "card (set (map trade_key rs)) = card (id_keys rs)"
    by (simp add: card_image)
  with distinct_card [OF assms(1)] show ?thesis by simp
qed

text \<open>
  Claim C3, as the code has it. The seen set is consulted as it stood when the page
  arrived: a record of the page is appended exactly when its identifier is not in that
  set, whatever its other fields hold. So in a run from the empty state whose pages
  each list an identifier at most once, every identifier appears at most once in the
  result, and the number of results is the number of different identifiers over all
  the pages. (A page that lists an identifier twice contributes both records.)
\<close>

theorem results_hold_each_id_once:
  assumes "trades_loop fuel env self market st {} [] et w = Some (Inr rs, w1)"
  shows "\<exists>evs. trace w1 = trace w @ evs
     \<and> ((\<forall>e\<in>set evs. \<forall>page. fetched e = Some page \<longrightarrow> distinct (map trade_key page))
          \<longrightarrow> distinct (map trade_key rs)
            \<and> length rs = card (\<Union>e\<in>set evs. case fetched e of None \<Rightarrow> {}
                                                   | Some page \<Rightarrow> id_keys page))
     \<and> (\<forall>ids results response s. loop_body env ids results response = Inr s \<longrightarrow>
          (\<exists>page. py_iter response = Inr page
             \<and> (case s of Break rs' \<Rightarrow> rs' | Continue ids' rs' c \<Rightarrow> rs')
                 = results @ filter (\<lambda>r. \<not> seen ids r) page))
     \<and> (\<forall>ids r r'. subscript r ''id'' = subscript r' ''id'' \<longrightarrow> seen ids r = seen ids r')"
proof -
  have e: "{} = id_keys []" by (simp add: id_keys_def)
  from keys_run [OF assms e] obtain evs where
    t: "trace w1 = trace w @ evs" and
    k: "\<forall>r\<in>set rs. \<exists>k. trade_key r = Inr k" and
    i: "id_keys rs = (\<Union>e\<in>set evs. case fetched e of None \<Rightarrow> {} | Some page \<Rightarrow> id_keys page)"
    by (auto simp: id_keys_def)
  have d: "distinct (map trade_key rs)
        \<and> length rs = card (\<Union>e\<in>set evs. case fetched e of None \<Rightarrow> {} | Some page \<Rightarrow> id_keys page)"
    if p: "\<forall>e\<in>set evs. \<forall>page. fetched e = Some page \<longrightarrow> distinct (map trade_key page)"
  proof -
    have "distinct (map trade_key rs)"
      by (rule distinct_run [OF assms e _ _ t p]) simp_all
    with length_card_keys [OF this k] i show ?thesis by simp
  qed
  from t d loop_body_appends seen_by_id show ?thesis by blast
qed

theorem results_hold_each_id_once_witness:
  "\<exists>w1. trades_loop (Suc (Suc 0)) paged_env example_client ''BTC-PERP'' None {} [] None
       \<lparr>now = 0, trace = []\<rparr>
     = Some (Inr (full_page @ [trade 100 ''1970-01-01T00:00:10+00:00'']), w1)
     \<and> map fetched (trace w1) = [Some full_page, Some older_page]
     \<and> distinct (map trade_key (full_page @ [trade 100 ''1970-01-01T00:00:10+00:00'']))
     \<and> card (id_keys full_page \<union> id_keys older_page) = 101
     \<and> length full_page + length older_page = 102"
proof -
  let ?w = "\<lparr>now = 0, trace = []\<rparr>"
  let ?rs = "full_page @ [trade 100 ''1970-01-01T00:00:10+00:00'']"
  from paged_run obtain p rep p' rep' where
    run: "trades_loop (Suc (Suc 0)) paged_env example_client ''BTC-PERP'' None {} [] None ?w
        = Some (Inr ?rs, \<lparr>now = 2 / 100, trace = [Sent 0 p rep, Sent (1 / 100) p' rep']\<rparr>)"
    and pages: "page_of rep = Some full_page" "page_of rep' = Some older_page"
    by blast
  let ?evs = "[Sent 0 p rep, Sent (1 / 100) p' rep']"
  from results_hold_each_id_once [OF run] have
    "(\<forall>e\<in>set ?evs. \<forall>page. fetched e = Some page \<longrightarrow> distinct (map trade_key page))
       \<longrightarrow> distinct (map trade_key ?rs)
         \<and> length ?rs = card (\<Union>e\<in>set ?evs. case fetched e of None \<Rightarrow> {}
                                                  | Some page \<Rightarrow> id_keys page)"
    by simp
  with pages have "distinct (map trade_key ?rs)"
    and "length ?rs = card (id_keys full_page \<union> id_keys older_page)"
    by (simp_all add: distinct_full_page distinct_older_page)
  with run pages show ?thesis
    by (simp add: length_full_page older_page_def)
qed

text \<open>
  The claim as stated fails when a page lists an identifier twice: both records pass
  the filter, because the seen set is only extended after the page.
\<close>

theorem same_page_duplicate_counterexample:
  "map_option fst (get_all_trades (Suc 0) twice_env example_client ''BTC-PERP'' None None
       \<lparr>now = 0, trace = []\<rparr>)
     = Some (Inr [trade 7 ''1970-01-01T00:00:10+00:00'', trade 7 ''1970-01-01T00:00:10+00:00''])"
proof -
  let ?page = "[trade 7 ''1970-01-01T00:00:10+00:00'', trade 7 ''1970-01-01T00:00:10+00:00'']"
  have "\<exists>w1. priv_get twice_env example_client ''markets/BTC-PERP/trades''
       (Some (trades_params None None)) \<lparr>now = 0, trace = []\<rparr> = (Inr (PList ?page), w1)"
    by (simp add: twice_env_def trades_params_def opt_scalar_def run_defs)
  moreover have "loop_body twice_env {} [] (PList ?page) = Inr (Break ?page)"
    by (simp add: loop_body_def py_iter_def trade_key_trade min_time_def trade_time_trade
        twice_env_def example_env_def example_instants_def limit_def)
  ultimately have "\<exists>w1. trades_loop (Suc 0) twice_env example_client ''BTC-PERP'' None {} [] None
       \<lparr>now = 0, trace = []\<rparr> = Some (Inr ?page, w1)"
    by (auto simp: trades_path_def)
  then show ?thesis
    by (auto simp: get_all_trades_def map_option_fst_wrapper_finish option.map_comp
        fst_wrapper_finish comp_def)
qed

section \<open>The throttle and the page requests\<close>




end
